theory Spec2Isabelle
  imports Complex_Main "HOL-Library.Multiset"
begin

section \<open>The comparison engine of excel\_comparison.py\<close>

text \<open>
  The development embeds \<^verbatim>\<open>ExcelComparisonApp.calculate_result\<close>
  (src/excel\_comparison.py, lines 777 to 859) and the pandas and Python operations it
  calls. What the method reads from \<open>self\<close> is an argument here: the
  settings (\<open>self.settings_manager\<close>) and the state of the "detailed
  comparison" check box (\<open>self.gck_check\<close>). An exception is a value
  \<open>Inl e\<close>, a returned result a value \<open>Inr res\<close>.
\<close>

subsection \<open>Cell values\<close>

text \<open>
  A cell of a loaded sheet is a number, a text, or the float \<open>nan\<close> that
  pandas puts in an empty cell. Python's \<open>int\<close> and \<open>float\<close>
  compare by numeric value (\<open>5 == 5.0\<close>), so one constructor carries both.
  The argument of \<open>NaN\<close> is the identity of the float object: Python's
  \<open>set\<close> takes two elements for the same one when they are the same object
  or compare equal, and \<open>nan == nan\<close> is false.
\<close>

datatype cell = Number rat | Text string | NaN nat

fun is_nan :: "cell \<Rightarrow> bool" where
  "is_nan (NaN i) = True"
| "is_nan (Number x) = False"
| "is_nan (Text s) = False"

text \<open>Python's \<open>a != b\<close> on two cell values (line 849).\<close>

definition py_ne :: "cell \<Rightarrow> cell \<Rightarrow> bool" where
  "py_ne a b = (if is_nan a then True else if is_nan b then True else a \<noteq> b)"

text \<open>One element of the mask \<open>df[col] == code\<close>: pandas' elementwise \<open>==\<close>.\<close>

definition pd_eq :: "cell \<Rightarrow> cell \<Rightarrow> bool" where
  "pd_eq a b = (if is_nan a then False else if is_nan b then False else a = b)"

subsection \<open>Data frames, settings, results\<close>

text \<open>
  A frame is its header (the column labels, the texts of the sheet's first row) and its
  rows. pandas keeps a frame rectangular, and the operations below read a column at the
  position of its label: \<open>wf_frame\<close> says that every row has one cell for
  each label and that the labels are pairwise distinct (for a repeated label
  \<open>df[label]\<close> is a frame, not a column, which the embedding does not
  cover). The theorems that speak of the cells of a frame assume it.
\<close>

record frame =
  columns :: "string list"
  rows :: "cell list list"

definition wf_frame :: "frame \<Rightarrow> bool" where
  "wf_frame df =
     (distinct (columns df) \<and> list_all (\<lambda>r. length r = length (columns df)) (rows df))"

text \<open>The exceptions that the operations below raise.\<close>

datatype error = IndexError | KeyError

text \<open>The settings read by \<open>calculate_result\<close>; the indices are Python ints.\<close>

record settings =
  code_column_index :: int
  name_column_index :: int
  incoming_column_index :: int
  outgoing_column_index :: int
  remaining_column_index :: int
  custom_comparisons :: "(string \<times> int) list"

text \<open>
  An entry of \<open>result['differences']\<close>. The dict \<open>diff_fields\<close>
  is an association list in insertion order.
\<close>

record difference =
  code :: cell
  description :: cell
  fields' :: "(string \<times> cell \<times> cell) list"

record result =
  row_count_1 :: nat
  row_count_2 :: nat
  missing_codes :: "(cell \<times> cell) list"
  extra_codes :: "(cell \<times> cell) list"
  differences :: "difference list"

subsection \<open>The pandas operations\<close>

text \<open>
  \<open>df.columns[i]\<close>: positional indexing as Python has it. A negative index
  counts from the end; an index outside \<open>-n \<le> i < n\<close> raises IndexError.
\<close>

definition in_range :: "frame \<Rightarrow> int \<Rightarrow> bool" where
  "in_range df i = (- int (length (columns df)) \<le> i \<and> i < int (length (columns df)))"

definition columns_getitem :: "frame \<Rightarrow> int \<Rightarrow> error + string" where
  "columns_getitem df i =
     (if in_range df i
      then Inr (columns df ! nat (if i < 0 then int (length (columns df)) + i else i))
      else Inl IndexError)"

text \<open>The position of a label in a header; \<open>None\<close> where pandas raises KeyError.\<close>

fun get_loc :: "string list \<Rightarrow> string \<Rightarrow> nat option" where
  "get_loc [] c = None"
| "get_loc (x # xs) c = (if x = c then Some 0 else map_option Suc (get_loc xs c))"

text \<open>\<open>df[col].values\<close>.\<close>

definition column_values :: "frame \<Rightarrow> string \<Rightarrow> error + cell list" where
  "column_values df col =
     (case get_loc (columns df) col of
        None \<Rightarrow> Inl KeyError
      | Some p \<Rightarrow> Inr (map (\<lambda>r. r ! p) (rows df)))"

text \<open>\<open>df[df[col] == code]\<close>: the rows whose cell in column \<open>col\<close> equals \<open>code\<close>.\<close>

definition select_rows :: "frame \<Rightarrow> string \<Rightarrow> cell \<Rightarrow> error + cell list list" where
  "select_rows df col c =
     (case get_loc (columns df) col of
        None \<Rightarrow> Inl KeyError
      | Some p \<Rightarrow> Inr (filter (\<lambda>r. pd_eq (r ! p) c) (rows df)))"

text \<open>\<open>.iloc[0]\<close>: the first element, IndexError when there is none.\<close>

definition iloc0 :: "'a list \<Rightarrow> error + 'a" where
  "iloc0 xs = (case xs of [] \<Rightarrow> Inl IndexError | x # _ \<Rightarrow> Inr x)"

text \<open>\<open>row[col]\<close> for a row of \<open>df\<close>, which is indexed by the labels of \<open>df\<close>.\<close>

definition row_getitem :: "frame \<Rightarrow> cell list \<Rightarrow> string \<Rightarrow> error + cell" where
  "row_getitem df r col =
     (case get_loc (columns df) col of None \<Rightarrow> Inl KeyError | Some p \<Rightarrow> Inr (r ! p))"

text \<open>\<open>df[df[code_column] == code].iloc[0]\<close> (lines 843 and 844).\<close>

definition first_row :: "frame \<Rightarrow> string \<Rightarrow> cell \<Rightarrow> error + cell list" where
  "first_row df code_column c =
     (case select_rows df code_column c of Inl e \<Rightarrow> Inl e | Inr sel \<Rightarrow> iloc0 sel)"

text \<open>
  \<open>df[df[code_column] == code][description_column].iloc[0]\<close> (lines 800 and
  806): the rows are selected, then the column (KeyError), then the first element
  (IndexError).
\<close>

definition first_description :: "frame \<Rightarrow> string \<Rightarrow> string \<Rightarrow> cell \<Rightarrow> error + cell" where
  "first_description df code_column description_column c =
     (case select_rows df code_column c of
        Inl e \<Rightarrow> Inl e
      | Inr sel \<Rightarrow>
          (case get_loc (columns df) description_column of
             None \<Rightarrow> Inl KeyError
           | Some p \<Rightarrow> iloc0 (map (\<lambda>r. r ! p) sel)))"

subsection \<open>Python sets and dicts\<close>

text \<open>
  A set is the list of its elements without repetition. A \<open>for\<close> loop over a
  set visits them in an order Python does not specify: the functions below take that
  order as the argument \<open>ord\<close>, which \<open>iteration_order\<close>
  requires to permute its argument.
\<close>

definition iteration_order :: "(cell list \<Rightarrow> cell list) \<Rightarrow> bool" where
  "iteration_order ord = (\<forall>xs. mset (ord xs) = mset xs)"

definition set_difference :: "cell list \<Rightarrow> cell list \<Rightarrow> cell list" where
  "set_difference xs ys = remdups (filter (\<lambda>k. k \<notin> set ys) xs)"

definition set_intersection :: "cell list \<Rightarrow> cell list \<Rightarrow> cell list" where
  "set_intersection xs ys = remdups (filter (\<lambda>k. k \<in> set ys) xs)"

text \<open>\<open>d[k] = v\<close>: a key already in the dict keeps its place and gets the new value.\<close>

fun dict_setitem :: "('k \<times> 'v) list \<Rightarrow> 'k \<Rightarrow> 'v \<Rightarrow> ('k \<times> 'v) list" where
  "dict_setitem [] k v = [(k, v)]"
| "dict_setitem ((k', v') # d) k v =
     (if k' = k then (k, v) # d else (k', v') # dict_setitem d k v)"

subsection \<open>calculate\_result\<close>

text \<open>
  The loops of lines 799 to 801 and 805 to 807: one \<open>(code, description)\<close>
  pair for each code, in the order of the iteration; the first exception ends the loop.
\<close>

fun describe_codes :: "frame \<Rightarrow> string \<Rightarrow> string \<Rightarrow> cell list \<Rightarrow> error + (cell \<times> cell) list" where
  "describe_codes df code_column description_column [] = Inr []"
| "describe_codes df code_column description_column (c # cs) =
     (case first_description df code_column description_column c of
        Inl e \<Rightarrow> Inl e
      | Inr d \<Rightarrow>
          (case describe_codes df code_column description_column cs of
             Inl e \<Rightarrow> Inl e
           | Inr ps \<Rightarrow> Inr ((c, d) # ps)))"

text \<open>
  Lines 833 to 839: a custom comparison whose index raises is passed over by the bare
  \<open>except\<close>.
\<close>

fun custom_columns :: "frame \<Rightarrow> (string \<times> int) list \<Rightarrow> (string \<times> string) list" where
  "custom_columns df1 [] = []"
| "custom_columns df1 ((name, idx) # comps) =
     (case columns_getitem df1 idx of
        Inl e \<Rightarrow> custom_columns df1 comps
      | Inr col \<Rightarrow> (name, col) # custom_columns df1 comps)"

text \<open>Lines 818 to 839: the list \<open>columns_to_compare\<close>.\<close>

definition columns_to_compare :: "settings \<Rightarrow> bool \<Rightarrow> frame \<Rightarrow> error + (string \<times> string) list" where
  "columns_to_compare st should_compare_gck df1 =
     (if should_compare_gck then
        (case columns_getitem df1 (incoming_column_index st) of
           Inl e \<Rightarrow> Inl e
         | Inr incoming \<Rightarrow>
        (case columns_getitem df1 (outgoing_column_index st) of
           Inl e \<Rightarrow> Inl e
         | Inr outgoing \<Rightarrow>
        (case columns_getitem df1 (remaining_column_index st) of
           Inl e \<Rightarrow> Inl e
         | Inr remaining \<Rightarrow>
             Inr ([(''Incoming'', incoming), (''Outgoing'', outgoing), (''Remaining'', remaining)]
                  @ custom_columns df1 (custom_comparisons st)))))
      else Inr (custom_columns df1 (custom_comparisons st)))"

text \<open>Lines 848 to 850: the inner loop, which fills \<open>diff_fields\<close>.\<close>

fun compare_fields ::
  "frame \<Rightarrow> frame \<Rightarrow> cell list \<Rightarrow> cell list \<Rightarrow> (string \<times> cell \<times> cell) list \<Rightarrow>
   (string \<times> string) list \<Rightarrow> error + (string \<times> cell \<times> cell) list" where
  "compare_fields df1 df2 row1 row2 diff_fields [] = Inr diff_fields"
| "compare_fields df1 df2 row1 row2 diff_fields ((field_name, col) # cols) =
     (case row_getitem df1 row1 col of
        Inl e \<Rightarrow> Inl e
      | Inr a \<Rightarrow>
          (case row_getitem df2 row2 col of
             Inl e \<Rightarrow> Inl e
           | Inr b \<Rightarrow>
               compare_fields df1 df2 row1 row2
                 (if py_ne a b then dict_setitem diff_fields field_name (a, b) else diff_fields)
                 cols))"

text \<open>Lines 842 to 857: the body of the loop over the common codes, for one code.\<close>

definition compare_code ::
  "frame \<Rightarrow> frame \<Rightarrow> string \<Rightarrow> string \<Rightarrow> (string \<times> string) list \<Rightarrow> cell \<Rightarrow>
   error + difference list" where
  "compare_code df1 df2 code_column description_column cols c =
     (case first_row df1 code_column c of
        Inl e \<Rightarrow> Inl e
      | Inr row1 \<Rightarrow>
     (case first_row df2 code_column c of
        Inl e \<Rightarrow> Inl e
      | Inr row2 \<Rightarrow>
     (case compare_fields df1 df2 row1 row2 [] cols of
        Inl e \<Rightarrow> Inl e
      | Inr diff_fields \<Rightarrow>
          if diff_fields \<noteq> [] then
            (case row_getitem df1 row1 description_column of
               Inl e \<Rightarrow> Inl e
             | Inr d \<Rightarrow> Inr [\<lparr>code = c, description = d, fields' = diff_fields\<rparr>])
          else Inr [])))"

fun compare_codes ::
  "frame \<Rightarrow> frame \<Rightarrow> string \<Rightarrow> string \<Rightarrow> (string \<times> string) list \<Rightarrow> cell list \<Rightarrow>
   error + difference list" where
  "compare_codes df1 df2 code_column description_column cols [] = Inr []"
| "compare_codes df1 df2 code_column description_column cols (c # cs) =
     (case compare_code df1 df2 code_column description_column cols c of
        Inl e \<Rightarrow> Inl e
      | Inr ds \<Rightarrow>
          (case compare_codes df1 df2 code_column description_column cols cs of
             Inl e \<Rightarrow> Inl e
           | Inr ds' \<Rightarrow> Inr (ds @ ds')))"

text \<open>
  The function itself. \<open>ord\<close> is the iteration order of the three sets,
  \<open>should_compare_gck\<close> the value of the check box (line 810).
\<close>

definition calculate_result ::
  "(cell list \<Rightarrow> cell list) \<Rightarrow> settings \<Rightarrow> bool \<Rightarrow> frame \<Rightarrow> frame \<Rightarrow> error + result" where
  "calculate_result ord st should_compare_gck df1 df2 =
     (case columns_getitem df1 (code_column_index st) of
        Inl e \<Rightarrow> Inl e
      | Inr code_column \<Rightarrow>
     (case columns_getitem df1 (name_column_index st) of
        Inl e \<Rightarrow> Inl e
      | Inr description_column \<Rightarrow>
     (case column_values df1 code_column of
        Inl e \<Rightarrow> Inl e
      | Inr file1_codes \<Rightarrow>
     (case column_values df2 code_column of
        Inl e \<Rightarrow> Inl e
      | Inr file2_codes \<Rightarrow>
     (case describe_codes df1 code_column description_column
             (ord (set_difference file1_codes file2_codes)) of
        Inl e \<Rightarrow> Inl e
      | Inr missing \<Rightarrow>
     (case describe_codes df2 code_column description_column
             (ord (set_difference file2_codes file1_codes)) of
        Inl e \<Rightarrow> Inl e
      | Inr extra \<Rightarrow>
          if should_compare_gck \<or> custom_comparisons st \<noteq> [] then
            (case columns_to_compare st should_compare_gck df1 of
               Inl e \<Rightarrow> Inl e
             | Inr cols \<Rightarrow>
            (case compare_codes df1 df2 code_column description_column cols
                    (ord (set_intersection file1_codes file2_codes)) of
               Inl e \<Rightarrow> Inl e
             | Inr found \<Rightarrow>
                 Inr \<lparr>row_count_1 = length (rows df1), row_count_2 = length (rows df2),
                      missing_codes = missing, extra_codes = extra, differences = found\<rparr>))
          else
            Inr \<lparr>row_count_1 = length (rows df1), row_count_2 = length (rows df2),
                 missing_codes = missing, extra_codes = extra, differences = []\<rparr>))))))"

subsection \<open>The specification's equality\<close>

text \<open>
  The equality of field values in the specification's own words, to compare with
  \<open>py_ne\<close>: numeric values compare numerically, strings by their exact text
  (no case folding, no trimming), and a numeric value is never equal to a string.
\<close>

fun type_aware_equal :: "cell \<Rightarrow> cell \<Rightarrow> bool" where
  "type_aware_equal (Number x) (Number y) = (x = y)"
| "type_aware_equal (Text s) (Text t) = (s = t)"
| "type_aware_equal a b = False"

subsection \<open>The specification's key set\<close>

text \<open>
  The key set of a table in the specification's own words: the cell at \<open>key_index\<close>
  of every record. A negative index is counted from the end, as \<open>columns_getitem\<close>
  counts it.
\<close>

definition key_set :: "frame \<Rightarrow> int \<Rightarrow> cell set" where
  "key_set df i =
     (\<lambda>r. r ! nat (if i < 0 then int (length (columns df)) + i else i)) ` set (rows df)"

subsection \<open>Example data\<close>

text \<open>
  The sheets of the scenarios: a header of five labels and the settings that point at
  them, and a record with key \<open>001\<close> whose "incoming" cell is given.
\<close>

definition header0 :: "string list" where
  "header0 = [''code'', ''name'', ''incoming'', ''outgoing'', ''remaining'']"

definition settings0 :: settings where
  "settings0 =
     \<lparr>code_column_index = 0, name_column_index = 1, incoming_column_index = 2,
      outgoing_column_index = 3, remaining_column_index = 4, custom_comparisons = []\<rparr>"

definition item :: "string \<Rightarrow> string \<Rightarrow> cell \<Rightarrow> cell list" where
  "item k d x = [Text k, Text d, x, Number 5, Number 5]"

definition widget :: "cell \<Rightarrow> cell list" where
  "widget x = item ''001'' ''Widget'' x"

definition sheet :: "cell list list \<Rightarrow> frame" where
  "sheet rs = \<lparr>columns = header0, rows = rs\<rparr>"

text \<open>
  Two sheets: record 001 differs in "incoming", 002 is in the first sheet only, 003 in
  the second only, 004 is the same in both. \<open>result_ab\<close> is what a detailed
  comparison of them returns.
\<close>

definition sheet_a :: frame where
  "sheet_a = sheet [widget (Number 10), item ''002'' ''Gadget'' (Number 1),
                    item ''004'' ''Bolt'' (Number 7)]"

definition sheet_b :: frame where
  "sheet_b = sheet [widget (Number 12), item ''003'' ''Gizmo'' (Number 2),
                    item ''004'' ''Bolt'' (Number 7)]"

definition triad :: "(string \<times> string) list" where
  "triad = [(''Incoming'', ''incoming''), (''Outgoing'', ''outgoing''),
            (''Remaining'', ''remaining'')]"

definition result_ab :: result where
  "result_ab =
     \<lparr>row_count_1 = 3, row_count_2 = 3,
      missing_codes = [(Text ''002'', Text ''Gadget'')],
      extra_codes = [(Text ''003'', Text ''Gizmo'')],
      differences =
        [\<lparr>code = Text ''001'', description = Text ''Widget'',
          fields' = [(''Incoming'', Number 10, Number 12)]\<rparr>]\<rparr>"

text \<open>A sheet of four columns with one record, and two custom comparisons named alike.\<close>

definition sheet_pq :: "cell \<Rightarrow> cell \<Rightarrow> frame" where
  "sheet_pq x y =
     \<lparr>columns = [''code'', ''name'', ''p'', ''q''],
      rows = [[Text ''001'', Text ''Widget'', x, y]]\<rparr>"

definition settings_xx :: settings where
  "settings_xx = settings0\<lparr>custom_comparisons := [(''X'', 2), (''X'', 3)]\<rparr>"

text \<open>
  Sheets of one, two and three columns with record 001, and the settings of a custom
  comparison "Region" on the column at index 2.
\<close>

definition sheet_one :: frame where
  "sheet_one = \<lparr>columns = [''code''], rows = [[Text ''001'']]\<rparr>"

definition sheet_two :: frame where
  "sheet_two = \<lparr>columns = [''code'', ''name''], rows = [[Text ''001'', Text ''Widget'']]\<rparr>"

definition sheet_three :: frame where
  "sheet_three =
     \<lparr>columns = [''code'', ''name'', ''region''],
      rows = [[Text ''001'', Text ''Widget'', Text ''EU'']]\<rparr>"

definition settings_region :: settings where
  "settings_region = settings0\<lparr>custom_comparisons := [(''Region'', 2)]\<rparr>"

text \<open>
  A sheet in which the keys 002 and 001 occur twice each, a sheet in which 001 occurs
  twice, and the result of their detailed comparison.
\<close>

definition sheet_dup_a :: frame where
  "sheet_dup_a = sheet [item ''002'' ''Gadget'' (Number 1), item ''002'' ''Other'' (Number 2),
                        widget (Number 10), widget (Number 11)]"

definition sheet_dup_b :: frame where
  "sheet_dup_b = sheet [widget (Number 12), widget (Number 10)]"

definition result_dup :: result where
  "result_dup =
     \<lparr>row_count_1 = 4, row_count_2 = 2,
      missing_codes = [(Text ''002'', Text ''Gadget'')],
      extra_codes = [],
      differences =
        [\<lparr>code = Text ''001'', description = Text ''Widget'',
          fields' = [(''Incoming'', Number 10, Number 12)]\<rparr>]\<rparr>"

text \<open>
  A sheet with the two columns of \<open>sheet_two\<close> in the other order: its record has
  \<open>001\<close> at index 0, under the label "name".
\<close>

definition sheet_swapped :: frame where
  "sheet_swapped = \<lparr>columns = [''name'', ''code''], rows = [[Text ''001'', Text ''X'']]\<rparr>"

section \<open>Properties\<close>

subsection \<open>Auxiliary facts\<close>

lemmas eval_defs =
  calculate_result_def columns_getitem_def in_range_def column_values_def set_difference_def
  set_intersection_def columns_to_compare_def compare_code_def first_row_def select_rows_def
  iloc0_def pd_eq_def py_ne_def row_getitem_def first_description_def
  header0_def settings0_def item_def widget_def sheet_def sheet_a_def sheet_b_def triad_def
  result_ab_def sheet_pq_def settings_xx_def sheet_one_def sheet_two_def sheet_three_def
  settings_region_def sheet_dup_a_def sheet_dup_b_def result_dup_def sheet_swapped_def

lemma iteration_order_set: "iteration_order ord \<Longrightarrow> set (ord xs) = set xs"
  unfolding iteration_order_def by (metis set_mset_mset)

lemma iteration_order_id: "iteration_order (\<lambda>xs. xs)"
  by (simp add: iteration_order_def)

lemma iteration_order_rev: "iteration_order rev"
  by (simp add: iteration_order_def)

lemma set_set_difference: "set (set_difference xs ys) = set xs - set ys"
  by (auto simp: set_difference_def)

lemma set_set_intersection: "set (set_intersection xs ys) = set xs \<inter> set ys"
  by (auto simp: set_intersection_def)

text \<open>What a returned result was computed from.\<close>

lemma calculate_result_Inr_ex:
  assumes "calculate_result ord st g df1 df2 = Inr res"
  shows "\<exists>cc dc f1 f2.
    columns_getitem df1 (code_column_index st) = Inr cc \<and>
    columns_getitem df1 (name_column_index st) = Inr dc \<and>
    column_values df1 cc = Inr f1 \<and>
    column_values df2 cc = Inr f2 \<and>
    describe_codes df1 cc dc (ord (set_difference f1 f2)) = Inr (missing_codes res) \<and>
    describe_codes df2 cc dc (ord (set_difference f2 f1)) = Inr (extra_codes res) \<and>
    row_count_1 res = length (rows df1) \<and>
    row_count_2 res = length (rows df2) \<and>
    (g \<or> custom_comparisons st \<noteq> [] \<longrightarrow>
       (\<exists>cols. columns_to_compare st g df1 = Inr cols \<and>
         compare_codes df1 df2 cc dc cols (ord (set_intersection f1 f2)) = Inr (differences res))) \<and>
    (\<not> (g \<or> custom_comparisons st \<noteq> []) \<longrightarrow> differences res = [])"
  using assms unfolding calculate_result_def
  by (auto split: sum.splits if_splits)

lemma calculate_result_Inr:
  assumes "calculate_result ord st g df1 df2 = Inr res"
  obtains cc dc f1 f2 where
    "columns_getitem df1 (code_column_index st) = Inr cc"
    "columns_getitem df1 (name_column_index st) = Inr dc"
    "column_values df1 cc = Inr f1"
    "column_values df2 cc = Inr f2"
    "describe_codes df1 cc dc (ord (set_difference f1 f2)) = Inr (missing_codes res)"
    "describe_codes df2 cc dc (ord (set_difference f2 f1)) = Inr (extra_codes res)"
    "row_count_1 res = length (rows df1)"
    "row_count_2 res = length (rows df2)"
    "g \<or> custom_comparisons st \<noteq> [] \<longrightarrow>
       (\<exists>cols. columns_to_compare st g df1 = Inr cols \<and>
         compare_codes df1 df2 cc dc cols (ord (set_intersection f1 f2)) = Inr (differences res))"
    "\<not> (g \<or> custom_comparisons st \<noteq> []) \<longrightarrow> differences res = []"
  using calculate_result_Inr_ex [OF assms] by blast

lemma calculate_result_columns:
  assumes "calculate_result ord st g df1 df2 = Inr res"
  obtains cc dc f1 f2 where
    "columns_getitem df1 (code_column_index st) = Inr cc"
    "columns_getitem df1 (name_column_index st) = Inr dc"
    "column_values df1 cc = Inr f1"
    "column_values df2 cc = Inr f2"
  using assms by (rule calculate_result_Inr)

lemma describe_codes_keys:
  "describe_codes df cc dc cs = Inr ps \<Longrightarrow> map fst ps = cs"
  by (induction cs arbitrary: ps) (auto split: sum.splits)

lemma describe_codes_entry:
  "describe_codes df cc dc cs = Inr ps \<Longrightarrow> (k, d) \<in> set ps \<Longrightarrow>
     first_description df cc dc k = Inr d"
  by (induction cs arbitrary: ps) (auto split: sum.splits)

lemma compare_code_code:
  "compare_code df1 df2 cc dc cols c = Inr ds \<Longrightarrow> e \<in> set ds \<Longrightarrow> code e = c"
  unfolding compare_code_def by (auto split: sum.splits if_splits)

lemma compare_codes_mem:
  "compare_codes df1 df2 cc dc cols cs = Inr ds \<Longrightarrow>
     e \<in> set ds \<longleftrightarrow>
       (\<exists>c\<in>set cs. \<exists>ds'. compare_code df1 df2 cc dc cols c = Inr ds' \<and> e \<in> set ds')"
  by (induction cs arbitrary: ds) (auto split: sum.splits)

lemma compare_codes_ok:
  "compare_codes df1 df2 cc dc cols cs = Inr ds \<Longrightarrow> c \<in> set cs \<Longrightarrow>
     \<exists>ds'. compare_code df1 df2 cc dc cols c = Inr ds'"
  by (induction cs arbitrary: ds) (auto split: sum.splits)

lemma describe_codes_fst:
  "describe_codes df cc dc cs = Inr ps \<Longrightarrow> fst ` set ps = set cs"
  using describe_codes_keys [of df cc dc cs ps] by (metis set_map)

lemma pd_eq_eq: "pd_eq a b \<Longrightarrow> a = b"
  by (auto simp: pd_eq_def split: if_splits)

lemma first_row_mem:
  assumes "first_row df cc k = Inr r" and "column_values df cc = Inr f"
  shows "k \<in> set f"
proof -
  from assms obtain p where p: "get_loc (columns df) cc = Some p"
    and f: "f = map (\<lambda>r. r ! p) (rows df)"
    by (auto simp: column_values_def split: option.splits)
  from assms(1) p have "iloc0 (filter (\<lambda>r. pd_eq (r ! p) k) (rows df)) = Inr r"
    by (simp add: first_row_def select_rows_def)
  then obtain rest where "filter (\<lambda>r. pd_eq (r ! p) k) (rows df) = r # rest"
    by (auto simp: iloc0_def split: list.splits)
  then have "r \<in> set (filter (\<lambda>r. pd_eq (r ! p) k) (rows df))"
    by simp
  then have "r \<in> set (rows df)" "r ! p = k"
    by (auto dest: pd_eq_eq)
  with f show ?thesis by auto
qed

lemma set_dict_setitem_fst: "fst ` set (dict_setitem d k v) = insert k (fst ` set d)"
  by (induction d k v rule: dict_setitem.induct) auto

lemma compare_fields_names:
  "compare_fields df1 df2 r1 r2 acc cols = Inr dfs \<Longrightarrow>
     fst ` set dfs = fst ` set acc \<union>
       {n. \<exists>col a b. (n, col) \<in> set cols \<and> row_getitem df1 r1 col = Inr a \<and>
             row_getitem df2 r2 col = Inr b \<and> py_ne a b}"
proof (induction cols arbitrary: acc)
  case Nil
  then show ?case by simp
next
  case (Cons x cols)
  obtain n col where x: "x = (n, col)" by (cases x)
  from Cons.prems x obtain a b where a: "row_getitem df1 r1 col = Inr a"
    and b: "row_getitem df2 r2 col = Inr b"
    and rest: "compare_fields df1 df2 r1 r2
        (if py_ne a b then dict_setitem acc n (a, b) else acc) cols = Inr dfs"
    by (auto split: sum.splits)
  from Cons.IH [OF rest] a b x show ?case
    by (auto simp: set_dict_setitem_fst split: if_splits)
qed

lemma missing_extra_keys:
  assumes "iteration_order ord"
    and "calculate_result ord st g df1 df2 = Inr res"
    and "columns_getitem df1 (code_column_index st) = Inr cc"
    and "column_values df1 cc = Inr f1"
    and "column_values df2 cc = Inr f2"
  shows "fst ` set (missing_codes res) = set f1 - set f2"
    and "fst ` set (extra_codes res) = set f2 - set f1"
proof -
  from assms(2) obtain cc' dc f1' f2' where
    "columns_getitem df1 (code_column_index st) = Inr cc'"
    "column_values df1 cc' = Inr f1'"
    "column_values df2 cc' = Inr f2'"
    and m: "describe_codes df1 cc' dc (ord (set_difference f1' f2')) = Inr (missing_codes res)"
    and x: "describe_codes df2 cc' dc (ord (set_difference f2' f1')) = Inr (extra_codes res)"
    by (rule calculate_result_Inr)
  with assms(3-5) have eq: "cc' = cc" "f1' = f1" "f2' = f2"
    by simp_all
  from m show "fst ` set (missing_codes res) = set f1 - set f2"
    by (simp add: eq describe_codes_fst iteration_order_set [OF assms(1)] set_set_difference)
  from x show "fst ` set (extra_codes res) = set f2 - set f1"
    by (simp add: eq describe_codes_fst iteration_order_set [OF assms(1)] set_set_difference)
qed

lemma compare_code_nonempty:
  assumes "compare_code df1 df2 cc dc cols k = Inr ds"
    and "first_row df1 cc k = Inr row1"
    and "first_row df2 cc k = Inr row2"
  shows "ds \<noteq> [] \<longleftrightarrow>
     (\<exists>(n, col)\<in>set cols. \<exists>a b. row_getitem df1 row1 col = Inr a \<and>
         row_getitem df2 row2 col = Inr b \<and> py_ne a b)"
proof -
  from assms obtain dfs where dfs: "compare_fields df1 df2 row1 row2 [] cols = Inr dfs"
    and ds: "ds \<noteq> [] \<longleftrightarrow> dfs \<noteq> []"
    by (auto simp: compare_code_def split: sum.splits if_splits)
  have "dfs \<noteq> [] \<longleftrightarrow> fst ` set dfs \<noteq> {}"
    by simp
  also have "\<dots> \<longleftrightarrow> (\<exists>(n, col)\<in>set cols. \<exists>a b. row_getitem df1 row1 col = Inr a \<and>
         row_getitem df2 row2 col = Inr b \<and> py_ne a b)"
    unfolding compare_fields_names [OF dfs] by auto
  finally show ?thesis using ds by simp
qed

lemma columns_to_compare_inactive:
  "\<not> (g \<or> custom_comparisons st \<noteq> []) \<Longrightarrow> columns_to_compare st g df1 = Inr []"
  by (simp add: columns_to_compare_def)

lemma compare_code_no_columns:
  "compare_code df1 df2 cc dc [] c = Inr ds \<Longrightarrow> ds = []"
  by (auto simp: compare_code_def split: sum.splits)

lemma differences_iff:
  assumes "iteration_order ord"
    and "calculate_result ord st g df1 df2 = Inr res"
    and "columns_getitem df1 (code_column_index st) = Inr cc"
    and "columns_getitem df1 (name_column_index st) = Inr dc"
    and "column_values df1 cc = Inr f1"
    and "column_values df2 cc = Inr f2"
    and "columns_to_compare st g df1 = Inr cols"
  shows "e \<in> set (differences res) \<longleftrightarrow>
     (\<exists>c\<in>set f1 \<inter> set f2. \<exists>ds. compare_code df1 df2 cc dc cols c = Inr ds \<and> e \<in> set ds)"
proof -
  from assms(2) obtain cc' dc' f1' f2' where
    "columns_getitem df1 (code_column_index st) = Inr cc'"
    "columns_getitem df1 (name_column_index st) = Inr dc'"
    "column_values df1 cc' = Inr f1'"
    "column_values df2 cc' = Inr f2'"
    and "describe_codes df1 cc' dc' (ord (set_difference f1' f2')) = Inr (missing_codes res)"
    and "describe_codes df2 cc' dc' (ord (set_difference f2' f1')) = Inr (extra_codes res)"
    and "row_count_1 res = length (rows df1)"
    and "row_count_2 res = length (rows df2)"
    and act: "g \<or> custom_comparisons st \<noteq> [] \<longrightarrow>
       (\<exists>cols. columns_to_compare st g df1 = Inr cols \<and>
         compare_codes df1 df2 cc' dc' cols (ord (set_intersection f1' f2')) = Inr (differences res))"
    and inact: "\<not> (g \<or> custom_comparisons st \<noteq> []) \<longrightarrow> differences res = []"
    by (rule calculate_result_Inr)
  with assms(3-6) have eq: "cc' = cc" "dc' = dc" "f1' = f1" "f2' = f2"
    by simp_all
  show ?thesis
  proof (cases "g \<or> custom_comparisons st \<noteq> []")
    case True
    with act assms(7) have
      "compare_codes df1 df2 cc dc cols (ord (set_intersection f1 f2)) = Inr (differences res)"
      by (auto simp: eq)
    from compare_codes_mem [OF this] show ?thesis
      by (simp add: iteration_order_set [OF assms(1)] set_set_intersection)
  next
    case False
    with assms(7) have "cols = []"
      by (simp add: columns_to_compare_inactive)
    with inact False show ?thesis
      by (auto dest: compare_code_no_columns)
  qed
qed

lemma differences_keys:
  assumes "iteration_order ord"
    and "calculate_result ord st g df1 df2 = Inr res"
    and "columns_getitem df1 (code_column_index st) = Inr cc"
    and "column_values df1 cc = Inr f1"
    and "column_values df2 cc = Inr f2"
  shows "code ` set (differences res) \<subseteq> set f1 \<inter> set f2"
proof
  fix k assume "k \<in> code ` set (differences res)"
  then obtain e where e: "e \<in> set (differences res)" "code e = k"
    by auto
  from assms(2) obtain dc where dc: "columns_getitem df1 (name_column_index st) = Inr dc"
    by (rule calculate_result_columns)
  show "k \<in> set f1 \<inter> set f2"
  proof (cases "g \<or> custom_comparisons st \<noteq> []")
    case True
    with assms(2) obtain cols where "columns_to_compare st g df1 = Inr cols"
      by (auto elim!: calculate_result_Inr)
    from differences_iff [OF assms(1-3) dc assms(4,5) this, of e] e show ?thesis
      by (auto dest: compare_code_code)
  next
    case False
    with assms(2) have "differences res = []"
      by (auto elim!: calculate_result_Inr)
    with e show ?thesis by simp
  qed
qed

lemma run_ab: "calculate_result (\<lambda>xs. xs) settings0 True sheet_a sheet_b = Inr result_ab"
  by (simp add: eval_defs)

lemma run_ab_rev: "calculate_result rev settings0 True sheet_a sheet_b = Inr result_ab"
  by (simp add: eval_defs)

lemma code_column_a: "columns_getitem sheet_a (code_column_index settings0) = Inr ''code''"
  by (simp add: eval_defs)

lemma name_column_a: "columns_getitem sheet_a (name_column_index settings0) = Inr ''name''"
  by (simp add: eval_defs)

lemma codes_a: "column_values sheet_a ''code'' = Inr [Text ''001'', Text ''002'', Text ''004'']"
  by (simp add: eval_defs)

lemma codes_b: "column_values sheet_b ''code'' = Inr [Text ''001'', Text ''003'', Text ''004'']"
  by (simp add: eval_defs)

lemma columns_a: "columns_to_compare settings0 True sheet_a = Inr triad"
  by (simp add: eval_defs)

lemma first_row_a_004:
  "first_row sheet_a ''code'' (Text ''004'') = Inr (item ''004'' ''Bolt'' (Number 7))"
  by (simp add: eval_defs)

lemma first_row_b_004:
  "first_row sheet_b ''code'' (Text ''004'') = Inr (item ''004'' ''Bolt'' (Number 7))"
  by (simp add: eval_defs)

lemma first_row_a_001:
  "first_row sheet_a ''code'' (Text ''001'') = Inr (widget (Number 10))"
  by (simp add: eval_defs)

lemma first_row_b_001:
  "first_row sheet_b ''code'' (Text ''001'') = Inr (widget (Number 12))"
  by (simp add: eval_defs)

lemma wf_sheet_a: "wf_frame sheet_a"
  by (simp add: wf_frame_def eval_defs)

lemma wf_sheet_b: "wf_frame sheet_b"
  by (simp add: wf_frame_def eval_defs)

lemma dict_setitem_fresh: "k \<notin> fst ` set d \<Longrightarrow> dict_setitem d k v = d @ [(k, v)]"
  by (induction d k v rule: dict_setitem.induct) auto

lemma set_dict_setitem_subset: "set (dict_setitem d k v) \<subseteq> insert (k, v) (set d)"
  by (induction d k v rule: dict_setitem.induct) auto

lemma compare_fields_pairs:
  "compare_fields df1 df2 r1 r2 acc cols = Inr dfs \<Longrightarrow>
     set dfs \<subseteq> set acc \<union>
       {(n, a, b). \<exists>col. (n, col) \<in> set cols \<and> row_getitem df1 r1 col = Inr a \<and>
             row_getitem df2 r2 col = Inr b \<and> py_ne a b}"
proof (induction cols arbitrary: acc)
  case Nil
  then show ?case by simp
next
  case (Cons x cols)
  obtain n col where x: "x = (n, col)" by (cases x)
  from Cons.prems x obtain a b where a: "row_getitem df1 r1 col = Inr a"
    and b: "row_getitem df2 r2 col = Inr b"
    and rest: "compare_fields df1 df2 r1 r2
        (if py_ne a b then dict_setitem acc n (a, b) else acc) cols = Inr dfs"
    by (auto split: sum.splits)
  show ?case
  proof (cases "py_ne a b")
    case True
    with Cons.IH [OF rest] set_dict_setitem_subset [of acc n "(a, b)"] a b x show ?thesis
      by auto
  next
    case False
    with Cons.IH [OF rest] x show ?thesis
      by auto
  qed
qed

lemma compare_fields_distinct:
  "compare_fields df1 df2 r1 r2 acc cols = Inr dfs \<Longrightarrow> distinct (map fst cols) \<Longrightarrow>
   fst ` set acc \<inter> fst ` set cols = {} \<Longrightarrow>
     set dfs = set acc \<union>
       {(n, a, b). \<exists>col. (n, col) \<in> set cols \<and> row_getitem df1 r1 col = Inr a \<and>
             row_getitem df2 r2 col = Inr b \<and> py_ne a b}"
proof (induction cols arbitrary: acc)
  case Nil
  then show ?case by simp
next
  case (Cons x cols)
  obtain n col where x: "x = (n, col)" by (cases x)
  from Cons.prems(1) x obtain a b where a: "row_getitem df1 r1 col = Inr a"
    and b: "row_getitem df2 r2 col = Inr b"
    and rest: "compare_fields df1 df2 r1 r2
        (if py_ne a b then dict_setitem acc n (a, b) else acc) cols = Inr dfs"
    by (auto split: sum.splits)
  from Cons.prems(2,3) x have fresh: "n \<notin> fst ` set acc" "n \<notin> fst ` set cols"
    and dist: "distinct (map fst cols)" and disj: "fst ` set acc \<inter> fst ` set cols = {}"
    by auto
  show ?case
  proof (cases "py_ne a b")
    case True
    with rest fresh(1) have rest': "compare_fields df1 df2 r1 r2 (acc @ [(n, a, b)]) cols = Inr dfs"
      by (simp add: dict_setitem_fresh)
    from fresh(2) disj have "fst ` set (acc @ [(n, a, b)]) \<inter> fst ` set cols = {}"
      by auto
    from Cons.IH [OF rest' dist this] True a b x fresh(2) show ?thesis
      by (auto simp: image_iff) 
  next
    case False
    with rest have rest': "compare_fields df1 df2 r1 r2 acc cols = Inr dfs"
      by simp
    from Cons.IH [OF rest' dist disj] False a b x fresh(2) show ?thesis
      by (auto simp: image_iff)
  qed
qed

lemma compare_code_result:
  assumes "compare_code df1 df2 cc dc cols k = Inr ds"
    and "first_row df1 cc k = Inr row1"
    and "first_row df2 cc k = Inr row2"
  shows "\<exists>dfs. compare_fields df1 df2 row1 row2 [] cols = Inr dfs \<and>
     (if dfs = [] then ds = []
      else \<exists>d. row_getitem df1 row1 dc = Inr d \<and>
             ds = [\<lparr>code = k, description = d, fields' = dfs\<rparr>])"
  using assms by (auto simp: compare_code_def split: sum.splits if_splits)

lemma compare_code_rows:
  assumes "compare_code df1 df2 cc dc cols k = Inr ds"
  shows "\<exists>row1 row2. first_row df1 cc k = Inr row1 \<and> first_row df2 cc k = Inr row2"
  using assms by (auto simp: compare_code_def split: sum.splits)

lemma get_loc_mem: "c \<in> set xs \<Longrightarrow> \<exists>p. get_loc xs c = Some p"
  by (induction xs) auto

lemma get_loc_nth: "get_loc xs c = Some p \<Longrightarrow> p < length xs \<and> xs ! p = c"
  by (induction xs arbitrary: p) (auto split: if_splits)

lemma columns_getitem_mem: "columns_getitem df i = Inr c \<Longrightarrow> c \<in> set (columns df)"
  by (auto simp: columns_getitem_def in_range_def split: if_splits)

lemma row_getitem_own_column:
  assumes "columns_getitem df i = Inr c"
  shows "\<exists>d. row_getitem df row c = Inr d"
  using get_loc_mem [OF columns_getitem_mem [OF assms]]
  by (auto simp: row_getitem_def)

lemma differences_entry_iff:
  assumes ord: "iteration_order ord"
    and run: "calculate_result ord st g df1 df2 = Inr res"
    and cc: "columns_getitem df1 (code_column_index st) = Inr cc"
    and dc: "columns_getitem df1 (name_column_index st) = Inr dc"
    and cols: "columns_to_compare st g df1 = Inr cols"
    and r1: "first_row df1 cc k = Inr row1"
    and r2: "first_row df2 cc k = Inr row2"
  shows "\<exists>dfs. compare_fields df1 df2 row1 row2 [] cols = Inr dfs \<and>
     (\<forall>e. e \<in> set (differences res) \<and> code e = k \<longleftrightarrow>
        dfs \<noteq> [] \<and> (\<exists>d. row_getitem df1 row1 dc = Inr d \<and>
           e = \<lparr>code = k, description = d, fields' = dfs\<rparr>))"
proof -
  from run obtain cc' dc' f1 f2 where
    "columns_getitem df1 (code_column_index st) = Inr cc'"
    "columns_getitem df1 (name_column_index st) = Inr dc'"
    "column_values df1 cc' = Inr f1" "column_values df2 cc' = Inr f2"
    by (rule calculate_result_columns)
  with cc have f1: "column_values df1 cc = Inr f1" and f2: "column_values df2 cc = Inr f2"
    by simp_all
  have k: "k \<in> set f1 \<inter> set f2"
    using first_row_mem [OF r1 f1] first_row_mem [OF r2 f2] by simp
  note iff = differences_iff [OF ord run cc dc f1 f2 cols]
  have "\<exists>ds. compare_code df1 df2 cc dc cols k = Inr ds"
  proof (cases "g \<or> custom_comparisons st \<noteq> []")
    case True
    with calculate_result_Inr_ex [OF run] cc dc f1 f2 cols have
      "compare_codes df1 df2 cc dc cols (ord (set_intersection f1 f2)) = Inr (differences res)"
      by auto
    from compare_codes_ok [OF this, of k] k show ?thesis
      by (simp add: iteration_order_set [OF ord] set_set_intersection)
  next
    case False
    with cols have "cols = []"
      by (simp add: columns_to_compare_inactive)
    then show ?thesis
      by (simp add: compare_code_def r1 r2)
  qed
  then obtain ds where ds: "compare_code df1 df2 cc dc cols k = Inr ds"
    by blast
  from compare_code_result [OF ds r1 r2] obtain dfs where
    dfs: "compare_fields df1 df2 row1 row2 [] cols = Inr dfs"
    and shape: "if dfs = [] then ds = []
      else \<exists>d. row_getitem df1 row1 dc = Inr d \<and>
             ds = [\<lparr>code = k, description = d, fields' = dfs\<rparr>]"
    by blast
  have mem: "e \<in> set (differences res) \<and> code e = k \<longleftrightarrow> e \<in> set ds" for e
  proof
    assume e: "e \<in> set (differences res) \<and> code e = k"
    with iff [of e] obtain c ds' where
      c: "compare_code df1 df2 cc dc cols c = Inr ds'" "e \<in> set ds'"
      by blast
    from compare_code_code [OF c] e have "c = k"
      by simp
    with c ds show "e \<in> set ds"
      by simp
  next
    assume "e \<in> set ds"
    with iff [of e] k ds compare_code_code [OF ds, of e]
    show "e \<in> set (differences res) \<and> code e = k"
      by blast
  qed
  have "e \<in> set ds \<longleftrightarrow>
        dfs \<noteq> [] \<and> (\<exists>d. row_getitem df1 row1 dc = Inr d \<and>
           e = \<lparr>code = k, description = d, fields' = dfs\<rparr>)" for e
    using shape by (cases "dfs = []") auto
  with mem dfs show ?thesis
    by blast
qed

lemma map_fst_dict_setitem:
  "map fst (dict_setitem d k v) = (if k \<in> fst ` set d then map fst d else map fst d @ [k])"
  by (induction d k v rule: dict_setitem.induct) auto

lemma compare_fields_distinct_names:
  "compare_fields df1 df2 r1 r2 acc cols = Inr dfs \<Longrightarrow> distinct (map fst acc) \<Longrightarrow>
     distinct (map fst dfs)"
proof (induction cols arbitrary: acc)
  case Nil
  then show ?case by simp
next
  case (Cons x cols)
  obtain n col where x: "x = (n, col)" by (cases x)
  from Cons.prems(1) x obtain a b where
    rest: "compare_fields df1 df2 r1 r2
        (if py_ne a b then dict_setitem acc n (a, b) else acc) cols = Inr dfs"
    by (auto split: sum.splits)
  from Cons.prems(2) have
    "distinct (map fst (if py_ne a b then dict_setitem acc n (a, b) else acc))"
    by (simp add: map_fst_dict_setitem)
  from Cons.IH [OF rest this] show ?case .
qed

lemma differing_field_recorded:
  assumes ord: "iteration_order ord"
    and run: "calculate_result ord st g df1 df2 = Inr res"
    and cc: "columns_getitem df1 (code_column_index st) = Inr cc"
    and dc: "columns_getitem df1 (name_column_index st) = Inr dc"
    and cols: "columns_to_compare st g df1 = Inr cols"
    and r1: "first_row df1 cc k = Inr row1"
    and r2: "first_row df2 cc k = Inr row2"
    and field: "(n, col) \<in> set cols"
    and a: "row_getitem df1 row1 col = Inr a"
    and b: "row_getitem df2 row2 col = Inr b"
    and ne: "py_ne a b"
  shows "\<exists>e\<in>set (differences res). code e = k \<and> n \<in> fst ` set (fields' e)"
proof -
  from differences_entry_iff [OF ord run cc dc cols r1 r2] obtain dfs where
    dfs: "compare_fields df1 df2 row1 row2 [] cols = Inr dfs"
    and iff: "\<And>e. e \<in> set (differences res) \<and> code e = k \<longleftrightarrow>
        dfs \<noteq> [] \<and> (\<exists>d. row_getitem df1 row1 dc = Inr d \<and>
           e = \<lparr>code = k, description = d, fields' = dfs\<rparr>)"
    by blast
  from field a b ne have n: "n \<in> fst ` set dfs"
    unfolding compare_fields_names [OF dfs] by auto
  then have "dfs \<noteq> []"
    by auto
  moreover from row_getitem_own_column [OF dc] obtain d where
    "row_getitem df1 row1 dc = Inr d"
    by blast
  ultimately have "\<lparr>code = k, description = d, fields' = dfs\<rparr> \<in> set (differences res)"
    using iff [of "\<lparr>code = k, description = d, fields' = dfs\<rparr>"] by simp
  with n show ?thesis
    by force
qed

lemma recorded_pair_differs:
  assumes ord: "iteration_order ord"
    and run: "calculate_result ord st g df1 df2 = Inr res"
    and cc: "columns_getitem df1 (code_column_index st) = Inr cc"
    and dc: "columns_getitem df1 (name_column_index st) = Inr dc"
    and cols: "columns_to_compare st g df1 = Inr cols"
    and r1: "first_row df1 cc k = Inr row1"
    and r2: "first_row df2 cc k = Inr row2"
    and e: "e \<in> set (differences res)" "code e = k"
    and pair: "(n, a, b) \<in> set (fields' e)"
  shows "py_ne a b \<and> (\<exists>col. (n, col) \<in> set cols \<and> row_getitem df1 row1 col = Inr a \<and>
           row_getitem df2 row2 col = Inr b)"
proof -
  from differences_entry_iff [OF ord run cc dc cols r1 r2] obtain dfs where
    dfs: "compare_fields df1 df2 row1 row2 [] cols = Inr dfs"
    and iff: "\<And>e. e \<in> set (differences res) \<and> code e = k \<longleftrightarrow>
        dfs \<noteq> [] \<and> (\<exists>d. row_getitem df1 row1 dc = Inr d \<and>
           e = \<lparr>code = k, description = d, fields' = dfs\<rparr>)"
    by blast
  from iff [of e] e obtain d where "e = \<lparr>code = k, description = d, fields' = dfs\<rparr>"
    by blast
  then have "fields' e = dfs"
    by simp
  with pair compare_fields_pairs [OF dfs] show ?thesis
    by auto
qed

lemma type_aware_equal_py_ne:
  "\<not> is_nan a \<Longrightarrow> \<not> is_nan b \<Longrightarrow> py_ne a b \<longleftrightarrow> \<not> type_aware_equal a b"
  by (cases a; cases b) (simp_all add: py_ne_def)

lemma custom_columns_append:
  "custom_columns df1 (xs @ ys) = custom_columns df1 xs @ custom_columns df1 ys"
  by (induction xs) (auto split: sum.splits)

lemma custom_columns_skip:
  "\<not> in_range df1 i \<Longrightarrow>
     custom_columns df1 (xs @ (n, i) # ys) = custom_columns df1 (xs @ ys)"
  by (simp add: custom_columns_append columns_getitem_def)

lemma compare_codes_no_columns:
  "compare_codes df1 df2 cc dc [] cs = Inr ds \<Longrightarrow> ds = []"
  by (induction cs arbitrary: ds) (auto split: sum.splits dest: compare_code_no_columns)

lemma pd_eq_iff: "pd_eq a k \<longleftrightarrow> \<not> is_nan k \<and> a = k"
  by (auto simp: pd_eq_def)

lemma filter_first:
  assumes "filter P xs = x # rest"
  shows "\<exists>pre post. xs = pre @ x # post \<and> P x \<and> (\<forall>y\<in>set pre. \<not> P y)"
  using assms by (auto simp: filter_eq_Cons_iff)

lemma first_row_decomp:
  assumes "first_row df cc k = Inr r"
  shows "\<exists>pre post p. rows df = pre @ r # post \<and> get_loc (columns df) cc = Some p \<and>
           r ! p = k \<and> (\<forall>r'\<in>set pre. r' ! p \<noteq> k)"
proof -
  from assms obtain p rest where p: "get_loc (columns df) cc = Some p"
    and sel: "filter (\<lambda>r. pd_eq (r ! p) k) (rows df) = r # rest"
    by (auto simp: first_row_def select_rows_def iloc0_def split: option.splits list.splits)
  from filter_first [OF sel] obtain pre post where
    "rows df = pre @ r # post" "pd_eq (r ! p) k" "\<forall>y\<in>set pre. \<not> pd_eq (y ! p) k"
    by blast
  with p show ?thesis
    by (auto simp: pd_eq_iff)
qed

lemma first_description_decomp:
  assumes "first_description df cc dc k = Inr d"
  shows "\<exists>pre r post p q. rows df = pre @ r # post \<and> get_loc (columns df) cc = Some p \<and>
           get_loc (columns df) dc = Some q \<and> r ! p = k \<and> (\<forall>r'\<in>set pre. r' ! p \<noteq> k) \<and>
           d = r ! q"
proof -
  from assms obtain p q where p: "get_loc (columns df) cc = Some p"
    and q: "get_loc (columns df) dc = Some q"
    and d: "iloc0 (map (\<lambda>r. r ! q) (filter (\<lambda>r. pd_eq (r ! p) k) (rows df))) = Inr d"
    by (auto simp: first_description_def select_rows_def split: option.splits)
  from d obtain r rest where sel: "filter (\<lambda>r. pd_eq (r ! p) k) (rows df) = r # rest"
    and dr: "d = r ! q"
    by (cases "filter (\<lambda>r. pd_eq (r ! p) k) (rows df)") (auto simp: iloc0_def)
  from filter_first [OF sel] obtain pre post where
    "rows df = pre @ r # post" "pd_eq (r ! p) k" "\<forall>y\<in>set pre. \<not> pd_eq (y ! p) k"
    by blast
  with p q dr show ?thesis
    by (auto simp: pd_eq_iff)
qed

lemma first_row_first:
  assumes "get_loc (columns df) cc = Some p"
    and "rows df = pre @ r # post"
    and "r ! p = k" and "\<not> is_nan k"
    and "\<forall>r'\<in>set pre. r' ! p \<noteq> k"
  shows "first_row df cc k = Inr r"
proof -
  from assms(5) have "filter (\<lambda>r. pd_eq (r ! p) k) pre = []"
    by (auto simp: pd_eq_iff filter_empty_conv)
  with assms(1-4) show ?thesis
    by (simp add: first_row_def select_rows_def iloc0_def pd_eq_iff)
qed

lemma first_description_first:
  assumes "get_loc (columns df) cc = Some p"
    and "rows df = pre @ r # post"
    and "r ! p = k" and "\<not> is_nan k"
    and "\<forall>r'\<in>set pre. r' ! p \<noteq> k"
    and "get_loc (columns df) dc = Some q"
  shows "first_description df cc dc k = Inr (r ! q)"
proof -
  from assms(5) have "filter (\<lambda>r. pd_eq (r ! p) k) pre = []"
    by (auto simp: pd_eq_iff filter_empty_conv)
  with assms(1-4,6) show ?thesis
    by (simp add: first_description_def select_rows_def iloc0_def pd_eq_iff)
qed

lemma columns_to_compare_ok:
  assumes "calculate_result ord st g df1 df2 = Inr res"
  shows "\<exists>cols. columns_to_compare st g df1 = Inr cols"
proof (cases "g \<or> custom_comparisons st \<noteq> []")
  case True
  with calculate_result_Inr_ex [OF assms] show ?thesis
    by blast
next
  case False
  then show ?thesis
    by (simp add: columns_to_compare_inactive)
qed

lemma describe_codes_total:
  "\<forall>c\<in>set cs. \<exists>d. first_description df cc dc c = Inr d \<Longrightarrow>
     describe_codes df cc dc cs = Inr (map (\<lambda>c. (c, projr (first_description df cc dc c))) cs)"
  by (induction cs) auto

lemma describe_codes_each:
  "describe_codes df cc dc cs = Inr ps \<Longrightarrow>
     \<forall>c\<in>set cs. \<exists>d. first_description df cc dc c = Inr d"
  by (induction cs arbitrary: ps) (auto split: sum.splits)

lemma describe_codes_map:
  "describe_codes df cc dc cs = Inr ps \<longleftrightarrow>
     (\<forall>c\<in>set cs. \<exists>d. first_description df cc dc c = Inr d) \<and>
     ps = map (\<lambda>c. (c, projr (first_description df cc dc c))) cs"
  using describe_codes_total [of cs df cc dc] describe_codes_each [of df cc dc cs ps]
  by auto

lemma compare_codes_total:
  "\<forall>c\<in>set cs. \<exists>ds'. compare_code df1 df2 cc dc cols c = Inr ds' \<Longrightarrow>
     compare_codes df1 df2 cc dc cols cs
       = Inr (concat (map (\<lambda>c. projr (compare_code df1 df2 cc dc cols c)) cs))"
  by (induction cs) auto

lemma compare_codes_concat:
  "compare_codes df1 df2 cc dc cols cs = Inr ds \<longleftrightarrow>
     (\<forall>c\<in>set cs. \<exists>ds'. compare_code df1 df2 cc dc cols c = Inr ds') \<and>
     ds = concat (map (\<lambda>c. projr (compare_code df1 df2 cc dc cols c)) cs)"
  using compare_codes_total [of cs df1 df2 cc dc cols]
    compare_codes_ok [of df1 df2 cc dc cols cs ds]
  by auto

lemma mset_concat_map:
  "mset (concat (map f cs)) = (\<Sum>c\<in>#mset cs. mset (f c))"
  by (induction cs) auto

lemma describe_codes_permuted:
  assumes "mset cs1 = mset cs2"
  shows "rel_sum (\<lambda>e1 e2. True) (\<lambda>ps qs. mset ps = mset qs)
           (describe_codes df cc dc cs1) (describe_codes df cc dc cs2)"
proof (cases "\<forall>c\<in>set cs1. \<exists>d. first_description df cc dc c = Inr d")
  case True
  moreover from assms have s: "set cs1 = set cs2"
    by (rule mset_eq_setD)
  ultimately have
    "describe_codes df cc dc cs1
       = Inr (map (\<lambda>c. (c, projr (first_description df cc dc c))) cs1)"
    "describe_codes df cc dc cs2
       = Inr (map (\<lambda>c. (c, projr (first_description df cc dc c))) cs2)"
    by (simp_all add: describe_codes_map)
  with assms show ?thesis
    by simp
next
  case False
  moreover from assms have s: "set cs1 = set cs2"
    by (rule mset_eq_setD)
  ultimately have "\<And>ps. describe_codes df cc dc cs1 \<noteq> Inr ps"
    "\<And>ps. describe_codes df cc dc cs2 \<noteq> Inr ps"
    by (simp_all add: describe_codes_map)
  then obtain e1 e2 where "describe_codes df cc dc cs1 = Inl e1"
    "describe_codes df cc dc cs2 = Inl e2"
    by (metis sum.exhaust)
  then show ?thesis
    by simp
qed

lemma compare_codes_permuted:
  assumes "mset cs1 = mset cs2"
  shows "rel_sum (\<lambda>e1 e2. True) (\<lambda>ps qs. mset ps = mset qs)
           (compare_codes df1 df2 cc dc cols cs1) (compare_codes df1 df2 cc dc cols cs2)"
proof (cases "\<forall>c\<in>set cs1. \<exists>ds'. compare_code df1 df2 cc dc cols c = Inr ds'")
  case True
  moreover from assms have s: "set cs1 = set cs2"
    by (rule mset_eq_setD)
  ultimately have
    "compare_codes df1 df2 cc dc cols cs1
       = Inr (concat (map (\<lambda>c. projr (compare_code df1 df2 cc dc cols c)) cs1))"
    "compare_codes df1 df2 cc dc cols cs2
       = Inr (concat (map (\<lambda>c. projr (compare_code df1 df2 cc dc cols c)) cs2))"
    by (simp_all add: compare_codes_concat)
  with assms show ?thesis
    by (simp add: mset_concat_map)
next
  case False
  moreover from assms have s: "set cs1 = set cs2"
    by (rule mset_eq_setD)
  ultimately have "\<And>ps. compare_codes df1 df2 cc dc cols cs1 \<noteq> Inr ps"
    "\<And>ps. compare_codes df1 df2 cc dc cols cs2 \<noteq> Inr ps"
    by (simp_all add: compare_codes_concat)
  then obtain e1 e2 where "compare_codes df1 df2 cc dc cols cs1 = Inl e1"
    "compare_codes df1 df2 cc dc cols cs2 = Inl e2"
    by (metis sum.exhaust)
  then show ?thesis
    by simp
qed

lemma iteration_order_mset:
  "iteration_order ord1 \<Longrightarrow> iteration_order ord2 \<Longrightarrow> mset (ord1 xs) = mset (ord2 xs)"
  by (simp add: iteration_order_def)

lemma rel_sum_InlE:
  assumes "rel_sum E R x y" and "x = Inl a"
  obtains b where "y = Inl b"
  using assms by (cases y) auto

lemma rel_sum_InrE:
  assumes "rel_sum E R x y" and "x = Inr a"
  obtains b where "y = Inr b" and "R a b"
  using assms by (cases y) auto

lemma calculate_result_permuted:
  assumes o1: "iteration_order ord1" and o2: "iteration_order ord2"
  shows "rel_sum (\<lambda>e1 e2. True)
           (\<lambda>r1 r2. row_count_1 r1 = row_count_1 r2 \<and> row_count_2 r1 = row_count_2 r2 \<and>
              mset (missing_codes r1) = mset (missing_codes r2) \<and>
              mset (extra_codes r1) = mset (extra_codes r2) \<and>
              mset (differences r1) = mset (differences r2))
           (calculate_result ord1 st g df1 df2) (calculate_result ord2 st g df1 df2)"
    (is "rel_sum ?E ?R _ _")
proof (cases "columns_getitem df1 (code_column_index st)")
  case Inl
  then show ?thesis by (simp add: calculate_result_def)
next
  case cc: (Inr cc)
  show ?thesis
  proof (cases "columns_getitem df1 (name_column_index st)")
    case Inl
    with cc show ?thesis by (simp add: calculate_result_def)
  next
    case dc: (Inr dc)
    show ?thesis
    proof (cases "column_values df1 cc")
      case Inl
      with cc dc show ?thesis by (simp add: calculate_result_def)
    next
      case f1: (Inr f1)
      show ?thesis
      proof (cases "column_values df2 cc")
        case Inl
        with cc dc f1 show ?thesis by (simp add: calculate_result_def)
      next
        case f2: (Inr f2)
        note prefix = cc dc f1 f2
        have M: "rel_sum ?E (\<lambda>ps qs. mset ps = mset qs)
            (describe_codes df1 cc dc (ord1 (set_difference f1 f2)))
            (describe_codes df1 cc dc (ord2 (set_difference f1 f2)))"
          by (rule describe_codes_permuted [OF iteration_order_mset [OF o1 o2]])
        have X: "rel_sum ?E (\<lambda>ps qs. mset ps = mset qs)
              (describe_codes df2 cc dc (ord1 (set_difference f2 f1)))
              (describe_codes df2 cc dc (ord2 (set_difference f2 f1)))"
          by (rule describe_codes_permuted [OF iteration_order_mset [OF o1 o2]])
        have D: "rel_sum ?E (\<lambda>ps qs. mset ps = mset qs)
                    (compare_codes df1 df2 cc dc cols (ord1 (set_intersection f1 f2)))
                    (compare_codes df1 df2 cc dc cols (ord2 (set_intersection f1 f2)))"
          for cols
          by (rule compare_codes_permuted [OF iteration_order_mset [OF o1 o2]])
        show ?thesis
        proof (cases "describe_codes df1 cc dc (ord1 (set_difference f1 f2))")
          case m1: (Inl e1)
          from M m1 obtain e2 where
            m2: "describe_codes df1 cc dc (ord2 (set_difference f1 f2)) = Inl e2"
            by (rule rel_sum_InlE)
          from prefix m1 m2 show ?thesis by (simp add: calculate_result_def)
        next
          case m1: (Inr ps)
          from M m1 obtain qs where
            m2: "describe_codes df1 cc dc (ord2 (set_difference f1 f2)) = Inr qs"
            and mm: "mset ps = mset qs"
            by (rule rel_sum_InrE)
          show ?thesis
          proof (cases "describe_codes df2 cc dc (ord1 (set_difference f2 f1))")
            case x1: (Inl e1)
            from X x1 obtain e2 where
              x2: "describe_codes df2 cc dc (ord2 (set_difference f2 f1)) = Inl e2"
              by (rule rel_sum_InlE)
            from prefix m1 m2 x1 x2 show ?thesis by (simp add: calculate_result_def)
          next
            case x1: (Inr xs)
            from X x1 obtain ys where
              x2: "describe_codes df2 cc dc (ord2 (set_difference f2 f1)) = Inr ys"
              and xx: "mset xs = mset ys"
              by (rule rel_sum_InrE)
            show ?thesis
            proof (cases "g \<or> custom_comparisons st \<noteq> []")
              case False
              with prefix m1 m2 x1 x2 mm xx show ?thesis by (simp add: calculate_result_def)
            next
              case True
              show ?thesis
              proof (cases "columns_to_compare st g df1")
                case Inl
                with prefix m1 m2 x1 x2 True show ?thesis by (simp add: calculate_result_def)
              next
                case cols: (Inr cols)
                show ?thesis
                proof (cases "compare_codes df1 df2 cc dc cols (ord1 (set_intersection f1 f2))")
                  case d1: (Inl e1)
                  from D d1 obtain e2 where
                    d2: "compare_codes df1 df2 cc dc cols (ord2 (set_intersection f1 f2)) = Inl e2"
                    by (rule rel_sum_InlE)
                  from prefix m1 m2 x1 x2 True cols d1 d2 show ?thesis
                    by (simp add: calculate_result_def)
                next
                  case d1: (Inr ds)
                  from D d1 obtain es where
                    d2: "compare_codes df1 df2 cc dc cols (ord2 (set_intersection f1 f2)) = Inr es"
                    and dd: "mset ds = mset es"
                    by (rule rel_sum_InrE)
                  from prefix m1 m2 x1 x2 True cols d1 d2 mm xx dd show ?thesis
                    by (simp add: calculate_result_def)
                qed
              qed
            qed
          qed
        qed
      qed
    qed
  qed
qed

lemma get_loc_distinct:
  "distinct xs \<Longrightarrow> j < length xs \<Longrightarrow> get_loc xs (xs ! j) = Some j"
proof (induction xs arbitrary: j)
  case Nil
  then show ?case by simp
next
  case (Cons x xs)
  show ?case
  proof (cases j)
    case 0
    then show ?thesis by simp
  next
    case (Suc i)
    with Cons.prems have "i < length xs" "distinct xs" "xs ! i \<noteq> x"
      by auto
    with Cons.IH [of i] Suc show ?thesis
      by auto
  qed
qed

lemma column_values_key_set:
  assumes "wf_frame df"
    and "columns_getitem df i = Inr cc"
    and "column_values df cc = Inr f"
  shows "set f = key_set df i"
proof -
  let ?j = "nat (if i < 0 then int (length (columns df)) + i else i)"
  from assms(2) have j: "?j < length (columns df)" and cc: "cc = columns df ! ?j"
    by (auto simp: columns_getitem_def in_range_def split: if_splits)
  from assms(1) have "distinct (columns df)"
    by (simp add: wf_frame_def)
  from get_loc_distinct [OF this j] cc have "get_loc (columns df) cc = Some ?j"
    by simp
  with assms(3) have "f = map (\<lambda>r. r ! ?j) (rows df)"
    by (simp add: column_values_def)
  then show ?thesis
    by (simp add: key_set_def)
qed

lemma column_values_own:
  assumes "wf_frame df" and "columns_getitem df i = Inr cc"
  shows "\<exists>f. column_values df cc = Inr f \<and> set f = key_set df i"
proof -
  from get_loc_mem [OF columns_getitem_mem [OF assms(2)]] obtain f where
    "column_values df cc = Inr f"
    by (auto simp: column_values_def)
  with column_values_key_set [OF assms this] show ?thesis
    by blast
qed

lemma compare_fields_append:
  "compare_fields df1 df2 r1 r2 acc (xs @ ys) =
     (case compare_fields df1 df2 r1 r2 acc xs of
        Inl e \<Rightarrow> Inl e
      | Inr acc' \<Rightarrow> compare_fields df1 df2 r1 r2 acc' ys)"
  by (induction xs arbitrary: acc) (auto split: sum.splits)

lemma dict_setitem_mem: "(k, v) \<in> set (dict_setitem d k v)"
  by (induction d k v rule: dict_setitem.induct) auto

lemma dict_setitem_other:
  "(k, v) \<in> set d \<Longrightarrow> k' \<noteq> k \<Longrightarrow> (k, v) \<in> set (dict_setitem d k' v')"
  by (induction d k' v' rule: dict_setitem.induct) auto

lemma compare_fields_keeps:
  assumes "compare_fields df1 df2 r1 r2 acc cols = Inr dfs"
    and "(n, v) \<in> set acc"
    and "\<forall>(n', col')\<in>set cols. n' = n \<longrightarrow>
           (\<forall>a b. row_getitem df1 r1 col' = Inr a \<and> row_getitem df2 r2 col' = Inr b
              \<longrightarrow> \<not> py_ne a b)"
  shows "(n, v) \<in> set dfs"
  using assms
proof (induction cols arbitrary: acc)
  case Nil
  then show ?case by simp
next
  case (Cons x cols)
  obtain n' col' where x: "x = (n', col')" by (cases x)
  from Cons.prems(1) x obtain a b where a: "row_getitem df1 r1 col' = Inr a"
    and b: "row_getitem df2 r2 col' = Inr b"
    and rest: "compare_fields df1 df2 r1 r2
        (if py_ne a b then dict_setitem acc n' (a, b) else acc) cols = Inr dfs"
    by (auto split: sum.splits)
  from Cons.prems(3) x a b have here: "n' = n \<longrightarrow> \<not> py_ne a b"
    by auto
  from Cons.prems(3) have later: "\<forall>(n', col')\<in>set cols. n' = n \<longrightarrow>
           (\<forall>a b. row_getitem df1 r1 col' = Inr a \<and> row_getitem df2 r2 col' = Inr b
              \<longrightarrow> \<not> py_ne a b)"
    by simp
  from Cons.prems(2) here
  have "(n, v) \<in> set (if py_ne a b then dict_setitem acc n' (a, b) else acc)"
    by (auto intro: dict_setitem_other)
  from Cons.IH [OF rest this later] show ?case .
qed

lemma compare_fields_own_pair:
  assumes "compare_fields df1 df2 r1 r2 acc (pre @ (n, col) # post) = Inr dfs"
    and "row_getitem df1 r1 col = Inr a"
    and "row_getitem df2 r2 col = Inr b"
    and "py_ne a b"
    and "\<forall>(n', col')\<in>set post. n' = n \<longrightarrow>
           (\<forall>a b. row_getitem df1 r1 col' = Inr a \<and> row_getitem df2 r2 col' = Inr b
              \<longrightarrow> \<not> py_ne a b)"
  shows "(n, a, b) \<in> set dfs"
proof -
  from assms(1) obtain acc' where
    "compare_fields df1 df2 r1 r2 acc' ((n, col) # post) = Inr dfs"
    by (auto simp: compare_fields_append split: sum.splits)
  with assms(2-4) have rest:
    "compare_fields df1 df2 r1 r2 (dict_setitem acc' n (a, b)) post = Inr dfs"
    by simp
  from compare_fields_keeps [OF rest dict_setitem_mem assms(5)] show ?thesis .
qed

subsection \<open>Indices out of range\<close>

text \<open>
  Claim C1, as stated, fails for the second table: no index is checked against it; its
  columns are found by the labels that the indices select in the first table. Below
  index 1 (the description) is no column position of the second sheet, which has one
  column, and the comparison returns a result.
\<close>

theorem index_not_checked_on_b_counterexample:
  "name_column_index settings0 = 1 \<and> length (columns sheet_one) = 1 \<and>
   \<not> in_range sheet_one (name_column_index settings0) \<and>
   calculate_result (\<lambda>xs. xs) settings0 False sheet_two sheet_one
     = Inr \<lparr>row_count_1 = 1, row_count_2 = 1, missing_codes = [], extra_codes = [],
            differences = []\<rparr>"
  by (simp add: eval_defs)

text \<open>
  Claim C1, amended: for the first table. If the key index or the description index is
  out of range for the columns of the first frame (\<open>in_range\<close>: for
  \<open>n\<close> columns, an index below \<open>-n\<close> or not below
  \<open>n\<close>), \<open>calculate_result\<close> raises IndexError and returns no
  result.
\<close>

theorem invalid_index_fails:
  assumes "\<not> in_range df1 (code_column_index st) \<or> \<not> in_range df1 (name_column_index st)"
  shows "calculate_result ord st g df1 df2 = Inl IndexError"
  using assms
  by (auto simp: calculate_result_def columns_getitem_def split: sum.splits)

theorem invalid_index_fails_witness:
  "\<not> in_range sheet_a (name_column_index (settings0\<lparr>name_column_index := 5\<rparr>)) \<and>
   calculate_result (\<lambda>xs. xs) (settings0\<lparr>name_column_index := 5\<rparr>) True sheet_a sheet_b
     = Inl IndexError"
proof -
  have bad: "\<not> in_range sheet_a (name_column_index (settings0\<lparr>name_column_index := 5\<rparr>))"
    by (simp add: eval_defs)
  then have "\<not> in_range sheet_a (code_column_index (settings0\<lparr>name_column_index := 5\<rparr>)) \<or>
      \<not> in_range sheet_a (name_column_index (settings0\<lparr>name_column_index := 5\<rparr>))"
    by simp
  from invalid_index_fails [OF this] bad show ?thesis
    by simp
qed

subsection \<open>The three collections do not overlap\<close>

text \<open>
  Claim C2, as stated, fails in its second part for the second table, whose keys are
  read in the column that carries the label of the first table's key column, not at
  \<open>key_index\<close>. Below key \<open>001\<close> is at index 0 of the record of either sheet and
  no comparison field is active, yet \<open>001\<close> is listed in \<open>missing_codes\<close>
  (only\_in\_a): the second sheet has the label "code" on its other column.
\<close>

theorem common_key_listed_counterexample:
  "custom_comparisons settings0 = [] \<and>
   Text ''001'' \<in> key_set sheet_two (code_column_index settings0) \<and>
   Text ''001'' \<in> key_set sheet_swapped (code_column_index settings0) \<and>
   calculate_result rev settings0 False sheet_two sheet_swapped
     = Inr \<lparr>row_count_1 = 1, row_count_2 = 1,
            missing_codes = [(Text ''001'', Text ''Widget'')],
            extra_codes = [(Text ''X'', Text ''001'')],
            differences = []\<rparr> \<and>
   Text ''001'' \<in> fst ` set [(Text ''001'', Text ''Widget'')]"
  by (simp add: eval_defs key_set_def)

text \<open>
  Claim C2, amended: the second table's keys are the values of its column labelled as
  the first table's key column. For well-formed frames: in a returned result no key is
  in two of \<open>missing_codes\<close> (only\_in\_a), \<open>extra_codes\<close> (only\_in\_b) and
  \<open>differences\<close>. A key that is in the first frame's key set (the cells at
  \<open>key_index\<close>) and among the values of that column of the second frame, and whose
  matched first records agree on every column of \<open>columns_to_compare\<close> (which is
  so when that list is empty), is in none of the three. Where the second frame's header
  has at \<open>key_index\<close> the label that the first frame's has there, those values are
  the second frame's key set.
\<close>

theorem result_partition:
  assumes "iteration_order ord"
    and "calculate_result ord st g df1 df2 = Inr res"
    and "columns_getitem df1 (code_column_index st) = Inr cc"
    and "column_values df2 cc = Inr f2"
    and "wf_frame df1" and "wf_frame df2"
  shows "fst ` set (missing_codes res) \<inter> fst ` set (extra_codes res) = {} \<and>
         fst ` set (missing_codes res) \<inter> code ` set (differences res) = {} \<and>
         fst ` set (extra_codes res) \<inter> code ` set (differences res) = {} \<and>
         (\<forall>k cols.
            columns_to_compare st g df1 = Inr cols \<and>
            k \<in> key_set df1 (code_column_index st) \<and> k \<in> set f2 \<and>
            (\<forall>row1 row2. first_row df1 cc k = Inr row1 \<and> first_row df2 cc k = Inr row2 \<longrightarrow>
               (\<forall>(n, col)\<in>set cols. \<forall>a b.
                  row_getitem df1 row1 col = Inr a \<and> row_getitem df2 row2 col = Inr b
                    \<longrightarrow> \<not> py_ne a b))
            \<longrightarrow> k \<notin> fst ` set (missing_codes res) \<and> k \<notin> fst ` set (extra_codes res) \<and>
                k \<notin> code ` set (differences res)) \<and>
         (columns_getitem df2 (code_column_index st) = Inr cc \<longrightarrow>
            set f2 = key_set df2 (code_column_index st))"
proof -
  from column_values_own [OF assms(5,3)] obtain f1 where
    f1: "column_values df1 cc = Inr f1" and k1: "set f1 = key_set df1 (code_column_index st)"
    by blast
  note f2 = assms(4)
  from assms(2) obtain dc where dc: "columns_getitem df1 (name_column_index st) = Inr dc"
    by (rule calculate_result_columns)
  note m = missing_extra_keys(1) [OF assms(1-3) f1 f2]
  note x = missing_extra_keys(2) [OF assms(1-3) f1 f2]
  note d = differences_keys [OF assms(1-3) f1 f2]
  have disj: "fst ` set (missing_codes res) \<inter> fst ` set (extra_codes res) = {}"
    "fst ` set (missing_codes res) \<inter> code ` set (differences res) = {}"
    "fst ` set (extra_codes res) \<inter> code ` set (differences res) = {}"
    using d unfolding m x by auto
  have none: "k \<notin> fst ` set (missing_codes res) \<and> k \<notin> fst ` set (extra_codes res) \<and>
                k \<notin> code ` set (differences res)"
    if cols: "columns_to_compare st g df1 = Inr cols"
      and k: "k \<in> key_set df1 (code_column_index st)" "k \<in> set f2"
      and same: "\<And>row1 row2 n col a b.
        first_row df1 cc k = Inr row1 \<Longrightarrow> first_row df2 cc k = Inr row2 \<Longrightarrow>
        (n, col) \<in> set cols \<Longrightarrow> row_getitem df1 row1 col = Inr a \<Longrightarrow>
        row_getitem df2 row2 col = Inr b \<Longrightarrow> \<not> py_ne a b"
    for k cols
  proof -
    have "k \<notin> code ` set (differences res)"
    proof
      assume "k \<in> code ` set (differences res)"
      then obtain e where e: "e \<in> set (differences res)" "code e = k"
        by auto
      from differences_iff [OF assms(1-3) dc f1 f2 cols, of e] e(1) obtain c ds
        where c: "compare_code df1 df2 cc dc cols c = Inr ds" "e \<in> set ds"
        by blast
      from compare_code_code [OF c] e(2) have "c = k"
        by simp
      with c have ck: "compare_code df1 df2 cc dc cols k = Inr ds" and "ds \<noteq> []"
        by auto
      from compare_code_rows [OF ck] obtain row1 row2 where
        r1: "first_row df1 cc k = Inr row1" and r2: "first_row df2 cc k = Inr row2"
        by blast
      from compare_code_nonempty [OF ck r1 r2] \<open>ds \<noteq> []\<close> obtain n col a b where
        "(n, col) \<in> set cols" "row_getitem df1 row1 col = Inr a"
        "row_getitem df2 row2 col = Inr b" "py_ne a b"
        by blast
      with same [OF r1 r2] show False
        by blast
    qed
    with k show ?thesis
      unfolding m x k1 by simp
  qed
  have part2: "\<forall>k cols.
            columns_to_compare st g df1 = Inr cols \<and>
            k \<in> key_set df1 (code_column_index st) \<and> k \<in> set f2 \<and>
            (\<forall>row1 row2. first_row df1 cc k = Inr row1 \<and> first_row df2 cc k = Inr row2 \<longrightarrow>
               (\<forall>(n, col)\<in>set cols. \<forall>a b.
                  row_getitem df1 row1 col = Inr a \<and> row_getitem df2 row2 col = Inr b
                    \<longrightarrow> \<not> py_ne a b))
            \<longrightarrow> k \<notin> fst ` set (missing_codes res) \<and> k \<notin> fst ` set (extra_codes res) \<and>
                k \<notin> code ` set (differences res)"
  proof (intro allI impI)
    fix k cols
    assume H: "columns_to_compare st g df1 = Inr cols \<and>
            k \<in> key_set df1 (code_column_index st) \<and> k \<in> set f2 \<and>
            (\<forall>row1 row2. first_row df1 cc k = Inr row1 \<and> first_row df2 cc k = Inr row2 \<longrightarrow>
               (\<forall>(n, col)\<in>set cols. \<forall>a b.
                  row_getitem df1 row1 col = Inr a \<and> row_getitem df2 row2 col = Inr b
                    \<longrightarrow> \<not> py_ne a b))"
    then have cols: "columns_to_compare st g df1 = Inr cols"
      and k: "k \<in> key_set df1 (code_column_index st)" "k \<in> set f2"
      by simp_all
    have same: "\<not> py_ne a b"
      if "first_row df1 cc k = Inr row1" "first_row df2 cc k = Inr row2"
        "(n, col) \<in> set cols" "row_getitem df1 row1 col = Inr a"
        "row_getitem df2 row2 col = Inr b" for row1 row2 n col a b
      using H that by blast
    show "k \<notin> fst ` set (missing_codes res) \<and> k \<notin> fst ` set (extra_codes res) \<and>
                k \<notin> code ` set (differences res)"
      by (rule none [OF cols k same])
  qed
  have link: "columns_getitem df2 (code_column_index st) = Inr cc \<longrightarrow>
            set f2 = key_set df2 (code_column_index st)"
    using column_values_key_set [OF assms(6) _ f2] by blast
  from disj part2 link show ?thesis
    by (intro conjI)
qed

theorem result_partition_witness:
  "iteration_order (\<lambda>xs. xs) \<and>
   calculate_result (\<lambda>xs. xs) settings0 True sheet_a sheet_b = Inr result_ab \<and>
   columns_getitem sheet_a (code_column_index settings0) = Inr ''code'' \<and>
   column_values sheet_b ''code'' = Inr [Text ''001'', Text ''003'', Text ''004''] \<and>
   wf_frame sheet_a \<and> wf_frame sheet_b \<and>
   columns_to_compare settings0 True sheet_a = Inr triad \<and>
   Text ''004'' \<in> key_set sheet_a (code_column_index settings0) \<and>
   Text ''004'' \<in> set [Text ''001'', Text ''003'', Text ''004''] \<and>
   first_row sheet_a ''code'' (Text ''004'') = Inr (item ''004'' ''Bolt'' (Number 7)) \<and>
   first_row sheet_b ''code'' (Text ''004'') = Inr (item ''004'' ''Bolt'' (Number 7)) \<and>
   columns_getitem sheet_b (code_column_index settings0) = Inr ''code'' \<and>
   fst ` set (missing_codes result_ab) \<inter> fst ` set (extra_codes result_ab) = {} \<and>
   fst ` set (missing_codes result_ab) \<inter> code ` set (differences result_ab) = {} \<and>
   fst ` set (extra_codes result_ab) \<inter> code ` set (differences result_ab) = {} \<and>
   Text ''004'' \<notin> fst ` set (missing_codes result_ab) \<and>
   Text ''004'' \<notin> fst ` set (extra_codes result_ab) \<and>
   Text ''004'' \<notin> code ` set (differences result_ab) \<and>
   set [Text ''001'', Text ''003'', Text ''004''] = key_set sheet_b (code_column_index settings0)"
proof -
  note t = result_partition [OF iteration_order_id run_ab code_column_a codes_b
      wf_sheet_a wf_sheet_b]
  have cb: "columns_getitem sheet_b (code_column_index settings0) = Inr ''code''"
    by (simp add: eval_defs)
  have ka: "Text ''004'' \<in> key_set sheet_a (code_column_index settings0)"
    by (simp add: key_set_def eval_defs)
  have kb: "Text ''004'' \<in> set [Text ''001'', Text ''003'', Text ''004'']"
    by simp
  have same: "\<forall>row1 row2.
      first_row sheet_a ''code'' (Text ''004'') = Inr row1 \<and>
      first_row sheet_b ''code'' (Text ''004'') = Inr row2 \<longrightarrow>
      (\<forall>(n, col)\<in>set triad. \<forall>a b.
          row_getitem sheet_a row1 col = Inr a \<and> row_getitem sheet_b row2 col = Inr b
            \<longrightarrow> \<not> py_ne a b)"
  proof (intro allI impI)
    fix row1 row2
    assume "first_row sheet_a ''code'' (Text ''004'') = Inr row1 \<and>
      first_row sheet_b ''code'' (Text ''004'') = Inr row2"
    with first_row_a_004 first_row_b_004 have rows: "row1 = item ''004'' ''Bolt'' (Number 7)"
      "row2 = item ''004'' ''Bolt'' (Number 7)"
      by simp_all
    show "\<forall>(n, col)\<in>set triad. \<forall>a b.
          row_getitem sheet_a row1 col = Inr a \<and> row_getitem sheet_b row2 col = Inr b
            \<longrightarrow> \<not> py_ne a b"
      unfolding rows
      by (auto simp: triad_def row_getitem_def sheet_a_def sheet_b_def sheet_def header0_def
          item_def py_ne_def)
  qed
  from t have "\<forall>k cols.
      columns_to_compare settings0 True sheet_a = Inr cols \<and>
      k \<in> key_set sheet_a (code_column_index settings0) \<and>
      k \<in> set [Text ''001'', Text ''003'', Text ''004''] \<and>
      (\<forall>row1 row2. first_row sheet_a ''code'' k = Inr row1 \<and>
          first_row sheet_b ''code'' k = Inr row2 \<longrightarrow>
         (\<forall>(n, col)\<in>set cols. \<forall>a b.
            row_getitem sheet_a row1 col = Inr a \<and> row_getitem sheet_b row2 col = Inr b
              \<longrightarrow> \<not> py_ne a b))
      \<longrightarrow> k \<notin> fst ` set (missing_codes result_ab) \<and>
          k \<notin> fst ` set (extra_codes result_ab) \<and>
          k \<notin> code ` set (differences result_ab)"
    by (elim conjE)
  from this [rule_format, of triad "Text ''004''"] columns_a ka kb same
  have none: "Text ''004'' \<notin> fst ` set (missing_codes result_ab) \<and>
      Text ''004'' \<notin> fst ` set (extra_codes result_ab) \<and>
      Text ''004'' \<notin> code ` set (differences result_ab)"
    by simp
  from t have disj: "fst ` set (missing_codes result_ab) \<inter> fst ` set (extra_codes result_ab) = {}"
    "fst ` set (missing_codes result_ab) \<inter> code ` set (differences result_ab) = {}"
    "fst ` set (extra_codes result_ab) \<inter> code ` set (differences result_ab) = {}"
    by simp_all
  from t have "columns_getitem sheet_b (code_column_index settings0) = Inr ''code'' \<longrightarrow>
      set [Text ''001'', Text ''003'', Text ''004''] = key_set sheet_b (code_column_index settings0)"
    by (elim conjE)
  from this cb have link: "set [Text ''001'', Text ''003'', Text ''004'']
      = key_set sheet_b (code_column_index settings0)"
    by (rule mp)
  show ?thesis
    by (intro conjI iteration_order_id run_ab code_column_a codes_b wf_sheet_a wf_sheet_b
        columns_a ka kb first_row_a_004 first_row_b_004 cb disj link) (use none in simp_all)
qed

subsection \<open>Custom comparisons with an index out of range\<close>

text \<open>
  Claim C3, as stated, fails for the second table: the index of a custom comparison is
  looked up in the first table only, and the label found there is then read in the rows
  of both tables. Below index 2 is a column of the first sheet and none of the second,
  which has two columns; the field is not passed over, and reading it in the row of the
  second sheet raises KeyError.
\<close>

theorem custom_index_not_checked_on_b_counterexample:
  "custom_comparisons settings_region = [(''Region'', 2)] \<and>
   in_range sheet_three 2 \<and> \<not> in_range sheet_two 2 \<and>
   columns_to_compare settings_region False sheet_three = Inr [(''Region'', ''region'')] \<and>
   calculate_result (\<lambda>xs. xs) settings_region False sheet_three sheet_two = Inl KeyError"
  by (simp add: eval_defs)

text \<open>
  Claim C3, amended: for the first table. A custom comparison whose index is out of
  range for the columns of the first frame is left out of \<open>columns_to_compare\<close>
  without an exception. Every result returned with the comparison in the settings is
  the result returned without it; and when the detailed fields are on or another custom
  comparison is configured, the outcome (a result or an exception) is the same with and
  without it.
\<close>

theorem invalid_custom_index_skipped:
  assumes "\<not> in_range df1 i"
  shows "columns_to_compare (st\<lparr>custom_comparisons := xs @ (n, i) # ys\<rparr>) g df1
           = columns_to_compare (st\<lparr>custom_comparisons := xs @ ys\<rparr>) g df1 \<and>
         (\<forall>res. calculate_result ord (st\<lparr>custom_comparisons := xs @ (n, i) # ys\<rparr>) g df1 df2
                  = Inr res \<longrightarrow>
                calculate_result ord (st\<lparr>custom_comparisons := xs @ ys\<rparr>) g df1 df2 = Inr res) \<and>
         (g \<or> xs @ ys \<noteq> [] \<longrightarrow>
            calculate_result ord (st\<lparr>custom_comparisons := xs @ (n, i) # ys\<rparr>) g df1 df2
              = calculate_result ord (st\<lparr>custom_comparisons := xs @ ys\<rparr>) g df1 df2)"
proof -
  let ?with = "st\<lparr>custom_comparisons := xs @ (n, i) # ys\<rparr>"
  let ?without = "st\<lparr>custom_comparisons := xs @ ys\<rparr>"
  have cols: "columns_to_compare ?with g df1 = columns_to_compare ?without g df1"
    by (simp add: columns_to_compare_def custom_columns_skip [OF assms] cong: sum.case_cong)
  have same: "calculate_result ord ?with g df1 df2 = calculate_result ord ?without g df1 df2"
    if "g \<or> xs @ ys \<noteq> []"
    using that by (simp add: calculate_result_def cols cong: sum.case_cong)
  have "calculate_result ord ?without g df1 df2 = Inr res"
    if run: "calculate_result ord ?with g df1 df2 = Inr res" for res
  proof (cases "g \<or> xs @ ys \<noteq> []")
    case True
    with same run show ?thesis by simp
  next
    case False
    then have empty: "xs @ ys = []" and off: "\<not> g"
      by simp_all
    with custom_columns_skip [OF assms, of xs n ys]
    have none: "columns_to_compare ?with g df1 = Inr []"
      by (simp add: columns_to_compare_def)
    from calculate_result_Inr_ex [OF run] obtain cc dc f1 f2 where
      cc: "columns_getitem df1 (code_column_index st) = Inr cc"
      and dc: "columns_getitem df1 (name_column_index st) = Inr dc"
      and f1: "column_values df1 cc = Inr f1"
      and f2: "column_values df2 cc = Inr f2"
      and m: "describe_codes df1 cc dc (ord (set_difference f1 f2)) = Inr (missing_codes res)"
      and x: "describe_codes df2 cc dc (ord (set_difference f2 f1)) = Inr (extra_codes res)"
      and n1: "row_count_1 res = length (rows df1)"
      and n2: "row_count_2 res = length (rows df2)"
      and d: "\<exists>cols. columns_to_compare ?with g df1 = Inr cols \<and>
         compare_codes df1 df2 cc dc cols (ord (set_intersection f1 f2)) = Inr (differences res)"
      by auto
    from d none have "differences res = []"
      by (auto dest: compare_codes_no_columns)
    with n1 n2 have "res = \<lparr>row_count_1 = length (rows df1), row_count_2 = length (rows df2),
        missing_codes = missing_codes res, extra_codes = extra_codes res, differences = []\<rparr>"
      by simp
    with empty off cc dc f1 f2 m x show ?thesis
      by (simp add: calculate_result_def)
  qed
  with cols same show ?thesis
    by blast
qed

text \<open>Scenario D: "Region" at index 9 of a sheet of five columns.\<close>

theorem invalid_custom_index_skipped_witness:
  "\<not> in_range sheet_a 9 \<and>
   columns_to_compare (settings0\<lparr>custom_comparisons := [] @ (''Region'', 9) # []\<rparr>) True sheet_a
     = Inr triad \<and>
   calculate_result (\<lambda>xs. xs) (settings0\<lparr>custom_comparisons := [] @ (''Region'', 9) # []\<rparr>)
       True sheet_a sheet_b = Inr result_ab \<and>
   calculate_result (\<lambda>xs. xs) (settings0\<lparr>custom_comparisons := [] @ []\<rparr>)
       True sheet_a sheet_b = Inr result_ab"
proof -
  have bad: "\<not> in_range sheet_a 9"
    by (simp add: eval_defs)
  have cols: "columns_to_compare (settings0\<lparr>custom_comparisons := [] @ []\<rparr>) True sheet_a
     = Inr triad"
    and run: "calculate_result (\<lambda>xs. xs) (settings0\<lparr>custom_comparisons := [] @ []\<rparr>)
       True sheet_a sheet_b = Inr result_ab"
    by (simp_all add: eval_defs)
  note t = invalid_custom_index_skipped [OF bad, where st = settings0 and xs = "[]"
      and n = "''Region''" and ys = "[]" and g = True and ord = "\<lambda>xs. xs"
      and ?df2.0 = sheet_b]
  from t have ceq: "columns_to_compare (settings0\<lparr>custom_comparisons := [] @ (''Region'', 9) # []\<rparr>)
      True sheet_a
    = columns_to_compare (settings0\<lparr>custom_comparisons := [] @ []\<rparr>) True sheet_a"
    by (rule conjunct1)
  from ceq cols have cols': "columns_to_compare
      (settings0\<lparr>custom_comparisons := [] @ (''Region'', 9) # []\<rparr>) True sheet_a = Inr triad"
    by (rule trans)
  from t have req: "calculate_result (\<lambda>xs. xs)
      (settings0\<lparr>custom_comparisons := [] @ (''Region'', 9) # []\<rparr>) True sheet_a sheet_b
    = calculate_result (\<lambda>xs. xs) (settings0\<lparr>custom_comparisons := [] @ []\<rparr>)
        True sheet_a sheet_b"
    by blast
  from req run have run': "calculate_result (\<lambda>xs. xs)
      (settings0\<lparr>custom_comparisons := [] @ (''Region'', 9) # []\<rparr>) True sheet_a sheet_b
    = Inr result_ab"
    by (rule trans)
  show ?thesis
    by (intro conjI bad cols' run' run)
qed

text \<open>
  Not covered by the amended claim: a custom comparison that is passed over still counts
  as configured (line 812), so when it is the only one, and the detailed fields are off,
  the loop over the common keys runs with no column to compare, against the comment of
  line 809 ("Check if we need to compare any fields"). A key cell that is empty
  in both sheets (the same \<open>nan\<close> object in both sets) is then looked up, no row
  matches it, and \<open>.iloc[0]\<close> raises IndexError, where the run without the field
  returns a result.
\<close>

lemma sole_skipped_field_runs_loop:
  "calculate_result (\<lambda>xs. xs) (settings0\<lparr>custom_comparisons := [(''Region'', 9)]\<rparr>) False
      (sheet [widget (Number 1), [NaN 0, Text ''Blank'', Number 1, Number 5, Number 5]])
      (sheet [widget (Number 1), [NaN 0, Text ''Blank'', Number 1, Number 5, Number 5]])
     = Inl IndexError \<and>
   calculate_result (\<lambda>xs. xs) (settings0\<lparr>custom_comparisons := []\<rparr>) False
      (sheet [widget (Number 1), [NaN 0, Text ''Blank'', Number 1, Number 5, Number 5]])
      (sheet [widget (Number 1), [NaN 0, Text ''Blank'', Number 1, Number 5, Number 5]])
     = Inr \<lparr>row_count_1 = 2, row_count_2 = 2, missing_codes = [], extra_codes = [],
            differences = []\<rparr>"
  by (simp add: eval_defs)

subsection \<open>The entry of a common key\<close>

text \<open>
  Claim C4, as stated, fails when two active comparison fields have the same name:
  \<open>diff_fields\<close> is a dict keyed by the field name, so the second assignment
  replaces the pair of the first. Below both columns \<open>p\<close> and
  \<open>q\<close> differ, both fields are called \<open>X\<close>, and the entry maps
  \<open>X\<close> to the pair of \<open>q\<close> only: the pair \<open>(1, 3)\<close>
  of the field on column \<open>p\<close> is not in the mapping.
\<close>

theorem repeated_field_name_counterexample:
  "calculate_result (\<lambda>xs. xs) settings_xx False
      (sheet_pq (Number 1) (Number 2)) (sheet_pq (Number 3) (Number 4))
     = Inr \<lparr>row_count_1 = 1, row_count_2 = 1, missing_codes = [], extra_codes = [],
            differences =
              [\<lparr>code = Text ''001'', description = Text ''Widget'',
                fields' = [(''X'', Number 2, Number 4)]\<rparr>]\<rparr>
   \<and> columns_to_compare settings_xx False (sheet_pq (Number 1) (Number 2))
       = Inr [(''X'', ''p''), (''X'', ''q'')]
   \<and> row_getitem (sheet_pq (Number 1) (Number 2))
         [Text ''001'', Text ''Widget'', Number 1, Number 2] ''p'' = Inr (Number 1)
   \<and> row_getitem (sheet_pq (Number 3) (Number 4))
         [Text ''001'', Text ''Widget'', Number 3, Number 4] ''p'' = Inr (Number 3)
   \<and> py_ne (Number 1) (Number 3)
   \<and> (''X'', Number 1, Number 3) \<notin> set [(''X'', Number 2, Number 4)]"
  by (simp add: eval_defs)

text \<open>
  Claim C4, amended: a field is mapped to its own pair unless a later field of the same
  name differs too. The frames are well-formed. Let \<open>k\<close> be a key with a record in
  both frames, \<open>row1\<close> and \<open>row2\<close> the first such records. In a returned result
  there is a \<open>differences\<close> entry for \<open>k\<close> if and only if some column of
  \<open>columns_to_compare\<close> holds unequal values (Python's \<open>!=\<close>) in \<open>row1\<close>
  and \<open>row2\<close>. Every entry for \<open>k\<close> carries the description of \<open>row1\<close> and
  a mapping whose names are exactly the names of the fields whose values differ; every
  pair in it is the pair (value in \<open>row1\<close>, value in \<open>row2\<close>) of a differing
  field of that name, and a differing field has its own pair there when no later field
  of the same name differs. With pairwise distinct field names the mapping holds exactly
  the differing fields, each with its pair.
\<close>

theorem differences_entry:
  assumes "iteration_order ord"
    and "calculate_result ord st g df1 df2 = Inr res"
    and "columns_getitem df1 (code_column_index st) = Inr cc"
    and "columns_getitem df1 (name_column_index st) = Inr dc"
    and "columns_to_compare st g df1 = Inr cols"
    and "first_row df1 cc k = Inr row1"
    and "first_row df2 cc k = Inr row2"
    and "wf_frame df1" and "wf_frame df2"
  shows "((\<exists>e\<in>set (differences res). code e = k) \<longleftrightarrow>
            (\<exists>(n, col)\<in>set cols. \<exists>a b. row_getitem df1 row1 col = Inr a \<and>
                row_getitem df2 row2 col = Inr b \<and> py_ne a b)) \<and>
         (\<forall>e\<in>set (differences res). code e = k \<longrightarrow>
            row_getitem df1 row1 dc = Inr (description e) \<and>
            distinct (map fst (fields' e)) \<and>
            fst ` set (fields' e) =
              {n. \<exists>col a b. (n, col) \<in> set cols \<and> row_getitem df1 row1 col = Inr a \<and>
                 row_getitem df2 row2 col = Inr b \<and> py_ne a b} \<and>
            set (fields' e) \<subseteq>
              {(n, a, b). \<exists>col. (n, col) \<in> set cols \<and> row_getitem df1 row1 col = Inr a \<and>
                 row_getitem df2 row2 col = Inr b \<and> py_ne a b} \<and>
            (\<forall>pre n col post a b.
               cols = pre @ (n, col) # post \<and> row_getitem df1 row1 col = Inr a \<and>
               row_getitem df2 row2 col = Inr b \<and> py_ne a b \<and>
               (\<forall>(n', col')\<in>set post. n' = n \<longrightarrow>
                  (\<forall>a' b'. row_getitem df1 row1 col' = Inr a' \<and>
                     row_getitem df2 row2 col' = Inr b' \<longrightarrow> \<not> py_ne a' b'))
               \<longrightarrow> (n, a, b) \<in> set (fields' e)) \<and>
            (distinct (map fst cols) \<longrightarrow>
               set (fields' e) =
                 {(n, a, b). \<exists>col. (n, col) \<in> set cols \<and> row_getitem df1 row1 col = Inr a \<and>
                    row_getitem df2 row2 col = Inr b \<and> py_ne a b}))"
proof -
  note base = assms(1-7)
  from differences_entry_iff [OF base] obtain dfs where
    dfs: "compare_fields df1 df2 row1 row2 [] cols = Inr dfs"
    and iff: "\<And>e. e \<in> set (differences res) \<and> code e = k \<longleftrightarrow>
        dfs \<noteq> [] \<and> (\<exists>d. row_getitem df1 row1 dc = Inr d \<and>
           e = \<lparr>code = k, description = d, fields' = dfs\<rparr>)"
    by blast
  have recorded: "fst ` set dfs =
      {n. \<exists>col a b. (n, col) \<in> set cols \<and> row_getitem df1 row1 col = Inr a \<and>
                 row_getitem df2 row2 col = Inr b \<and> py_ne a b}"
    using compare_fields_names [OF dfs] by simp
  have pairs: "set dfs \<subseteq>
      {(n, a, b). \<exists>col. (n, col) \<in> set cols \<and> row_getitem df1 row1 col = Inr a \<and>
                 row_getitem df2 row2 col = Inr b \<and> py_ne a b}"
    using compare_fields_pairs [OF dfs] by simp
  have names: "distinct (map fst dfs)"
    using compare_fields_distinct_names [OF dfs] by simp
  have own: "(n, a, b) \<in> set dfs"
    if "cols = pre @ (n, col) # post \<and> row_getitem df1 row1 col = Inr a \<and>
        row_getitem df2 row2 col = Inr b \<and> py_ne a b \<and>
        (\<forall>(n', col')\<in>set post. n' = n \<longrightarrow>
           (\<forall>a' b'. row_getitem df1 row1 col' = Inr a' \<and>
              row_getitem df2 row2 col' = Inr b' \<longrightarrow> \<not> py_ne a' b'))"
    for pre n col post a b
  proof -
    from that dfs have "compare_fields df1 df2 row1 row2 [] (pre @ (n, col) # post) = Inr dfs"
      by simp
    from compare_fields_own_pair [OF this] that show ?thesis
      by blast
  qed
  have content: "set dfs =
      {(n, a, b). \<exists>col. (n, col) \<in> set cols \<and> row_getitem df1 row1 col = Inr a \<and>
                 row_getitem df2 row2 col = Inr b \<and> py_ne a b}"
    if "distinct (map fst cols)"
    using compare_fields_distinct [OF dfs that] by simp
  have exists: "(\<exists>e\<in>set (differences res). code e = k) \<longleftrightarrow>
            (\<exists>(n, col)\<in>set cols. \<exists>a b. row_getitem df1 row1 col = Inr a \<and>
                row_getitem df2 row2 col = Inr b \<and> py_ne a b)"
  proof
    assume "\<exists>e\<in>set (differences res). code e = k"
    then obtain e where e: "e \<in> set (differences res)" "code e = k"
      by blast
    with iff [of e] have "dfs \<noteq> []"
      by blast
    then obtain n a b where "(n, a, b) \<in> set dfs"
      by (cases dfs) auto
    with pairs show "\<exists>(n, col)\<in>set cols. \<exists>a b. row_getitem df1 row1 col = Inr a \<and>
                row_getitem df2 row2 col = Inr b \<and> py_ne a b"
      by blast
  next
    assume "\<exists>(n, col)\<in>set cols. \<exists>a b. row_getitem df1 row1 col = Inr a \<and>
                row_getitem df2 row2 col = Inr b \<and> py_ne a b"
    then obtain n col a b where "(n, col) \<in> set cols" "row_getitem df1 row1 col = Inr a"
      "row_getitem df2 row2 col = Inr b" "py_ne a b"
      by blast
    from differing_field_recorded [OF base this]
    show "\<exists>e\<in>set (differences res). code e = k"
      by blast
  qed
  have entry: "row_getitem df1 row1 dc = Inr (description e) \<and> fields' e = dfs"
    if "e \<in> set (differences res)" "code e = k" for e
  proof -
    from iff [of e] that obtain d where "row_getitem df1 row1 dc = Inr d"
      "e = \<lparr>code = k, description = d, fields' = dfs\<rparr>"
      by blast
    then show ?thesis
      by simp
  qed
  show ?thesis
  proof (intro conjI ballI impI)
    show "(\<exists>e\<in>set (differences res). code e = k) \<longleftrightarrow>
            (\<exists>(n, col)\<in>set cols. \<exists>a b. row_getitem df1 row1 col = Inr a \<and>
                row_getitem df2 row2 col = Inr b \<and> py_ne a b)"
      by (rule exists)
  next
    fix e assume "e \<in> set (differences res)" "code e = k"
    then show "row_getitem df1 row1 dc = Inr (description e)"
      using entry by blast
  next
    fix e assume "e \<in> set (differences res)" "code e = k"
    with entry [of e] names show "distinct (map fst (fields' e))"
      by simp
  next
    fix e assume "e \<in> set (differences res)" "code e = k"
    with entry [of e] recorded show "fst ` set (fields' e) =
              {n. \<exists>col a b. (n, col) \<in> set cols \<and> row_getitem df1 row1 col = Inr a \<and>
                 row_getitem df2 row2 col = Inr b \<and> py_ne a b}"
      by simp
  next
    fix e assume "e \<in> set (differences res)" "code e = k"
    with entry [of e] pairs show "set (fields' e) \<subseteq>
              {(n, a, b). \<exists>col. (n, col) \<in> set cols \<and> row_getitem df1 row1 col = Inr a \<and>
                 row_getitem df2 row2 col = Inr b \<and> py_ne a b}"
      by simp
  next
    fix e assume e: "e \<in> set (differences res)" "code e = k"
    show "\<forall>pre n col post a b.
               cols = pre @ (n, col) # post \<and> row_getitem df1 row1 col = Inr a \<and>
               row_getitem df2 row2 col = Inr b \<and> py_ne a b \<and>
               (\<forall>(n', col')\<in>set post. n' = n \<longrightarrow>
                  (\<forall>a' b'. row_getitem df1 row1 col' = Inr a' \<and>
                     row_getitem df2 row2 col' = Inr b' \<longrightarrow> \<not> py_ne a' b'))
               \<longrightarrow> (n, a, b) \<in> set (fields' e)"
    proof (intro allI impI)
      fix pre n col post a b
      assume "cols = pre @ (n, col) # post \<and> row_getitem df1 row1 col = Inr a \<and>
               row_getitem df2 row2 col = Inr b \<and> py_ne a b \<and>
               (\<forall>(n', col')\<in>set post. n' = n \<longrightarrow>
                  (\<forall>a' b'. row_getitem df1 row1 col' = Inr a' \<and>
                     row_getitem df2 row2 col' = Inr b' \<longrightarrow> \<not> py_ne a' b'))"
      from own [OF this] entry [OF e] show "(n, a, b) \<in> set (fields' e)"
        by simp
    qed
  next
    fix e assume "e \<in> set (differences res)" "code e = k" "distinct (map fst cols)"
    with entry [of e] content show "set (fields' e) =
                 {(n, a, b). \<exists>col. (n, col) \<in> set cols \<and> row_getitem df1 row1 col = Inr a \<and>
                    row_getitem df2 row2 col = Inr b \<and> py_ne a b}"
      by simp
  qed
qed

theorem differences_entry_witness:
  "iteration_order (\<lambda>xs. xs) \<and>
   calculate_result (\<lambda>xs. xs) settings0 True sheet_a sheet_b = Inr result_ab \<and>
   columns_getitem sheet_a (code_column_index settings0) = Inr ''code'' \<and>
   columns_getitem sheet_a (name_column_index settings0) = Inr ''name'' \<and>
   columns_to_compare settings0 True sheet_a = Inr triad \<and>
   first_row sheet_a ''code'' (Text ''001'') = Inr (widget (Number 10)) \<and>
   first_row sheet_b ''code'' (Text ''001'') = Inr (widget (Number 12)) \<and>
   wf_frame sheet_a \<and> wf_frame sheet_b \<and>
   distinct (map fst triad) \<and>
   triad = [] @ (''Incoming'', ''incoming'') #
             [(''Outgoing'', ''outgoing''), (''Remaining'', ''remaining'')] \<and>
   row_getitem sheet_a (widget (Number 10)) ''incoming'' = Inr (Number 10) \<and>
   row_getitem sheet_b (widget (Number 12)) ''incoming'' = Inr (Number 12) \<and>
   py_ne (Number 10) (Number 12) \<and>
   \<lparr>code = Text ''001'', description = Text ''Widget'',
      fields' = [(''Incoming'', Number 10, Number 12)]\<rparr> \<in> set (differences result_ab) \<and>
   (''Incoming'', Number 10, Number 12)
     \<in> set (fields' \<lparr>code = Text ''001'', description = Text ''Widget'',
                      fields' = [(''Incoming'', Number 10, Number 12)]\<rparr>) \<and>
   (\<exists>(n, col)\<in>set triad. \<exists>a b. row_getitem sheet_a (widget (Number 10)) col = Inr a \<and>
       row_getitem sheet_b (widget (Number 12)) col = Inr b \<and> py_ne a b)"
proof -
  let ?e = "\<lparr>code = Text ''001'', description = Text ''Widget'',
      fields' = [(''Incoming'', Number 10, Number 12)]\<rparr>"
  have names: "distinct (map fst triad)"
    and split: "triad = [] @ (''Incoming'', ''incoming'') #
             [(''Outgoing'', ''outgoing''), (''Remaining'', ''remaining'')]"
    by (simp_all add: triad_def)
  have a: "row_getitem sheet_a (widget (Number 10)) ''incoming'' = Inr (Number 10)"
    and b: "row_getitem sheet_b (widget (Number 12)) ''incoming'' = Inr (Number 12)"
    and ne: "py_ne (Number 10) (Number 12)"
    by (simp_all add: eval_defs)
  have later: "\<forall>(n', col')\<in>set [(''Outgoing'', ''outgoing''), (''Remaining'', ''remaining'')].
      n' = ''Incoming'' \<longrightarrow>
        (\<forall>a' b'. row_getitem sheet_a (widget (Number 10)) col' = Inr a' \<and>
           row_getitem sheet_b (widget (Number 12)) col' = Inr b' \<longrightarrow> \<not> py_ne a' b')"
    by simp
  have mem: "?e \<in> set (differences result_ab)" and key: "code ?e = Text ''001''"
    by (simp_all add: result_ab_def)
  note t = differences_entry [OF iteration_order_id run_ab code_column_a name_column_a
      columns_a first_row_a_001 first_row_b_001 wf_sheet_a wf_sheet_b]
  from mem key have "\<exists>e\<in>set (differences result_ab). code e = Text ''001''"
    by blast
  with t have differ: "\<exists>(n, col)\<in>set triad. \<exists>a b.
       row_getitem sheet_a (widget (Number 10)) col = Inr a \<and>
       row_getitem sheet_b (widget (Number 12)) col = Inr b \<and> py_ne a b"
    by blast
  from t mem key have "\<forall>pre n col post a b.
       triad = pre @ (n, col) # post \<and>
       row_getitem sheet_a (widget (Number 10)) col = Inr a \<and>
       row_getitem sheet_b (widget (Number 12)) col = Inr b \<and> py_ne a b \<and>
       (\<forall>(n', col')\<in>set post. n' = n \<longrightarrow>
          (\<forall>a' b'. row_getitem sheet_a (widget (Number 10)) col' = Inr a' \<and>
             row_getitem sheet_b (widget (Number 12)) col' = Inr b' \<longrightarrow> \<not> py_ne a' b'))
       \<longrightarrow> (n, a, b) \<in> set (fields' ?e)"
    by blast
  from this [rule_format, of "[]" "''Incoming''" "''incoming''"
      "[(''Outgoing'', ''outgoing''), (''Remaining'', ''remaining'')]" "Number 10" "Number 12"]
    split a b ne later
  have own: "(''Incoming'', Number 10, Number 12) \<in> set (fields' ?e)"
    by blast
  show ?thesis
    by (intro conjI iteration_order_id run_ab code_column_a name_column_a columns_a
        first_row_a_001 first_row_b_001 wf_sheet_a wf_sheet_b names split a b ne mem own differ)
qed

subsection \<open>The short circuit\<close>

text \<open>
  Claim C5. With the check box off and no custom comparison in the settings, a result
  that \<open>calculate_result\<close> returns has an empty \<open>differences\<close>
  list, whatever the two frames hold.
\<close>

theorem no_fields_no_differences:
  assumes "calculate_result ord st False df1 df2 = Inr res"
    and "custom_comparisons st = []"
  shows "differences res = []"
  using calculate_result_Inr_ex [OF assms(1)] assms(2) by auto

text \<open>The two sheets differ in the "incoming" cell of record 001; nothing is reported.\<close>

theorem no_fields_no_differences_witness:
  "calculate_result (\<lambda>xs. xs) settings0 False
      (sheet [widget (Number 10)]) (sheet [widget (Number 12)])
     = Inr \<lparr>row_count_1 = 1, row_count_2 = 1, missing_codes = [], extra_codes = [],
            differences = []\<rparr>
   \<and> custom_comparisons settings0 = []
   \<and> differences \<lparr>row_count_1 = 1, row_count_2 = 1, missing_codes = [], extra_codes = [],
            differences = []\<rparr> = []"
proof -
  have run: "calculate_result (\<lambda>xs. xs) settings0 False
      (sheet [widget (Number 10)]) (sheet [widget (Number 12)])
     = Inr \<lparr>row_count_1 = 1, row_count_2 = 1, missing_codes = [], extra_codes = [],
            differences = []\<rparr>"
    by (simp add: eval_defs)
  have custom: "custom_comparisons settings0 = []"
    by (simp add: settings0_def)
  from no_fields_no_differences [OF run custom] run custom show ?thesis
    by simp
qed

subsection \<open>How two values are compared\<close>

text \<open>
  Claim C6. For well-formed frames: let \<open>k\<close> be a key with a record in both
  frames, \<open>row1\<close> and \<open>row2\<close> the first such records, and
  \<open>(n, col)\<close> an active comparison field whose values \<open>a\<close> in
  \<open>row1\<close> and \<open>b\<close> in \<open>row2\<close> are numbers or texts.
  If \<open>a\<close> and \<open>b\<close> are not equal in the specification's sense
  (\<open>type_aware_equal\<close>: numbers by value, texts by their exact characters, a
  number never equal to a text), the field \<open>n\<close> is recorded in the
  \<open>differences\<close> entry of \<open>k\<close>; if they are equal, no entry of
  \<open>k\<close> records the pair \<open>(a, b)\<close> for \<open>n\<close>.
\<close>

theorem type_aware_comparison:
  assumes "iteration_order ord"
    and "calculate_result ord st g df1 df2 = Inr res"
    and "columns_getitem df1 (code_column_index st) = Inr cc"
    and "columns_getitem df1 (name_column_index st) = Inr dc"
    and "columns_to_compare st g df1 = Inr cols"
    and "first_row df1 cc k = Inr row1"
    and "first_row df2 cc k = Inr row2"
    and "(n, col) \<in> set cols"
    and "row_getitem df1 row1 col = Inr a"
    and "row_getitem df2 row2 col = Inr b"
    and "\<not> is_nan a" and "\<not> is_nan b"
    and "wf_frame df1" and "wf_frame df2"
  shows "(\<not> type_aware_equal a b \<longrightarrow>
            (\<exists>e\<in>set (differences res). code e = k \<and> n \<in> fst ` set (fields' e))) \<and>
         (type_aware_equal a b \<longrightarrow>
            (\<forall>e\<in>set (differences res). code e = k \<longrightarrow> (n, a, b) \<notin> set (fields' e)))"
proof (intro conjI impI ballI)
  assume "\<not> type_aware_equal a b"
  with assms(11,12) have "py_ne a b"
    by (simp add: type_aware_equal_py_ne)
  from differing_field_recorded [OF assms(1-10) this]
  show "\<exists>e\<in>set (differences res). code e = k \<and> n \<in> fst ` set (fields' e)" .
next
  fix e
  assume eq: "type_aware_equal a b" and e: "e \<in> set (differences res)" "code e = k"
  show "(n, a, b) \<notin> set (fields' e)"
  proof
    assume "(n, a, b) \<in> set (fields' e)"
    from recorded_pair_differs [OF assms(1-7) e this] have "py_ne a b"
      by simp
    with assms(11,12) eq show False
      by (simp add: type_aware_equal_py_ne)
  qed
qed

text \<open>The number 5 against the text "5" in the "incoming" column.\<close>

theorem type_aware_comparison_witness:
  "iteration_order (\<lambda>xs. xs) \<and>
   calculate_result (\<lambda>xs. xs) settings0 True
       (sheet [widget (Number 5)]) (sheet [widget (Text ''5'')])
     = Inr \<lparr>row_count_1 = 1, row_count_2 = 1, missing_codes = [], extra_codes = [],
            differences =
              [\<lparr>code = Text ''001'', description = Text ''Widget'',
                fields' = [(''Incoming'', Number 5, Text ''5'')]\<rparr>]\<rparr> \<and>
   columns_getitem (sheet [widget (Number 5)]) (code_column_index settings0) = Inr ''code'' \<and>
   columns_getitem (sheet [widget (Number 5)]) (name_column_index settings0) = Inr ''name'' \<and>
   columns_to_compare settings0 True (sheet [widget (Number 5)]) = Inr triad \<and>
   first_row (sheet [widget (Number 5)]) ''code'' (Text ''001'') = Inr (widget (Number 5)) \<and>
   first_row (sheet [widget (Text ''5'')]) ''code'' (Text ''001'') = Inr (widget (Text ''5'')) \<and>
   (''Incoming'', ''incoming'') \<in> set triad \<and>
   row_getitem (sheet [widget (Number 5)]) (widget (Number 5)) ''incoming'' = Inr (Number 5) \<and>
   row_getitem (sheet [widget (Text ''5'')]) (widget (Text ''5'')) ''incoming'' = Inr (Text ''5'') \<and>
   \<not> is_nan (Number 5) \<and> \<not> is_nan (Text ''5'') \<and>
   wf_frame (sheet [widget (Number 5)]) \<and> wf_frame (sheet [widget (Text ''5'')]) \<and>
   \<not> type_aware_equal (Number 5) (Text ''5'') \<and>
   (\<exists>e\<in>set [\<lparr>code = Text ''001'', description = Text ''Widget'',
                fields' = [(''Incoming'', Number 5, Text ''5'')]\<rparr>].
       code e = Text ''001'' \<and> ''Incoming'' \<in> fst ` set (fields' e))"
proof -
  have run: "calculate_result (\<lambda>xs. xs) settings0 True
       (sheet [widget (Number 5)]) (sheet [widget (Text ''5'')])
     = Inr \<lparr>row_count_1 = 1, row_count_2 = 1, missing_codes = [], extra_codes = [],
            differences =
              [\<lparr>code = Text ''001'', description = Text ''Widget'',
                fields' = [(''Incoming'', Number 5, Text ''5'')]\<rparr>]\<rparr>"
    by (simp add: eval_defs)
  have cc: "columns_getitem (sheet [widget (Number 5)]) (code_column_index settings0) = Inr ''code''"
    and dc: "columns_getitem (sheet [widget (Number 5)]) (name_column_index settings0) = Inr ''name''"
    and cols: "columns_to_compare settings0 True (sheet [widget (Number 5)]) = Inr triad"
    and r1: "first_row (sheet [widget (Number 5)]) ''code'' (Text ''001'') = Inr (widget (Number 5))"
    and r2: "first_row (sheet [widget (Text ''5'')]) ''code'' (Text ''001'') = Inr (widget (Text ''5''))"
    and a: "row_getitem (sheet [widget (Number 5)]) (widget (Number 5)) ''incoming'' = Inr (Number 5)"
    and b: "row_getitem (sheet [widget (Text ''5'')]) (widget (Text ''5'')) ''incoming'' = Inr (Text ''5'')"
    by (simp_all add: eval_defs)
  have field: "(''Incoming'', ''incoming'') \<in> set triad"
    by (simp add: triad_def)
  have wf1: "wf_frame (sheet [widget (Number 5)])"
    and wf2: "wf_frame (sheet [widget (Text ''5'')])"
    by (simp_all add: wf_frame_def eval_defs)
  have na: "\<not> is_nan (Number 5)" and nb: "\<not> is_nan (Text ''5'')"
    and ne: "\<not> type_aware_equal (Number 5) (Text ''5'')"
    by simp_all
  from type_aware_comparison [OF iteration_order_id run cc dc cols r1 r2 field a b na nb
      wf1 wf2] ne
  have "\<exists>e\<in>set [\<lparr>code = Text ''001'', description = Text ''Widget'',
                fields' = [(''Incoming'', Number 5, Text ''5'')]\<rparr>].
       code e = Text ''001'' \<and> ''Incoming'' \<in> fst ` set (fields' e)"
    by simp
  then show ?thesis
    by (intro conjI iteration_order_id run cc dc cols r1 r2 field a b na nb wf1 wf2 ne)
qed

subsection \<open>Repeated keys\<close>

text \<open>
  Claim C7. For well-formed frames: in a returned result, the description of every
  \<open>missing_codes\<close> entry is read from the first row of the first frame whose
  key cell equals the key, that of every \<open>extra_codes\<close> entry from the first
  such row of the second frame, and every \<open>differences\<close> entry has its
  description and its pairs of values from the first such rows of the two frames: the
  rows after it (\<open>post\<close>) play no part. And the two lookups themselves,
  \<open>first_row\<close> and \<open>first_description\<close>, return that first row
  whatever follows it: a later row with the same key raises nothing.
\<close>

theorem first_match_wins:
  assumes "iteration_order ord"
    and "calculate_result ord st g df1 df2 = Inr res"
    and "columns_getitem df1 (code_column_index st) = Inr cc"
    and "columns_getitem df1 (name_column_index st) = Inr dc"
    and "wf_frame df1" and "wf_frame df2"
  shows
    "(\<forall>(k, d)\<in>set (missing_codes res). \<exists>pre r post p q.
        rows df1 = pre @ r # post \<and> get_loc (columns df1) cc = Some p \<and>
        get_loc (columns df1) dc = Some q \<and>
        r ! p = k \<and> (\<forall>r'\<in>set pre. r' ! p \<noteq> k) \<and> d = r ! q) \<and>
     (\<forall>(k, d)\<in>set (extra_codes res). \<exists>pre r post p q.
        rows df2 = pre @ r # post \<and> get_loc (columns df2) cc = Some p \<and>
        get_loc (columns df2) dc = Some q \<and>
        r ! p = k \<and> (\<forall>r'\<in>set pre. r' ! p \<noteq> k) \<and> d = r ! q) \<and>
     (\<forall>e\<in>set (differences res). \<exists>pre1 row1 post1 p1 pre2 row2 post2 p2.
        rows df1 = pre1 @ row1 # post1 \<and> get_loc (columns df1) cc = Some p1 \<and>
        row1 ! p1 = code e \<and> (\<forall>r'\<in>set pre1. r' ! p1 \<noteq> code e) \<and>
        rows df2 = pre2 @ row2 # post2 \<and> get_loc (columns df2) cc = Some p2 \<and>
        row2 ! p2 = code e \<and> (\<forall>r'\<in>set pre2. r' ! p2 \<noteq> code e) \<and>
        row_getitem df1 row1 dc = Inr (description e) \<and>
        (\<forall>(n, a, b)\<in>set (fields' e). \<exists>col.
            row_getitem df1 row1 col = Inr a \<and> row_getitem df2 row2 col = Inr b)) \<and>
     (\<forall>df k pre r post p.
        wf_frame df \<and> get_loc (columns df) cc = Some p \<and> rows df = pre @ r # post \<and>
        r ! p = k \<and> \<not> is_nan k \<and> (\<forall>r'\<in>set pre. r' ! p \<noteq> k) \<longrightarrow>
        first_row df cc k = Inr r \<and>
        (\<forall>q. get_loc (columns df) dc = Some q \<longrightarrow> first_description df cc dc k = Inr (r ! q)))"
proof -
  from calculate_result_Inr_ex [OF assms(2)] assms(3,4) obtain f1 f2 where
    f1: "column_values df1 cc = Inr f1" and f2: "column_values df2 cc = Inr f2"
    and m: "describe_codes df1 cc dc (ord (set_difference f1 f2)) = Inr (missing_codes res)"
    and x: "describe_codes df2 cc dc (ord (set_difference f2 f1)) = Inr (extra_codes res)"
    by auto
  from columns_to_compare_ok [OF assms(2)] obtain cols where
    cols: "columns_to_compare st g df1 = Inr cols"
    by blast
  have missing: "\<exists>pre r post p q.
        rows df1 = pre @ r # post \<and> get_loc (columns df1) cc = Some p \<and>
        get_loc (columns df1) dc = Some q \<and>
        r ! p = k \<and> (\<forall>r'\<in>set pre. r' ! p \<noteq> k) \<and> d = r ! q"
    if "(k, d) \<in> set (missing_codes res)" for k d
    using first_description_decomp [OF describe_codes_entry [OF m that]] .
  have extra: "\<exists>pre r post p q.
        rows df2 = pre @ r # post \<and> get_loc (columns df2) cc = Some p \<and>
        get_loc (columns df2) dc = Some q \<and>
        r ! p = k \<and> (\<forall>r'\<in>set pre. r' ! p \<noteq> k) \<and> d = r ! q"
    if "(k, d) \<in> set (extra_codes res)" for k d
    using first_description_decomp [OF describe_codes_entry [OF x that]] .
  have common: "\<exists>pre1 row1 post1 p1 pre2 row2 post2 p2.
        rows df1 = pre1 @ row1 # post1 \<and> get_loc (columns df1) cc = Some p1 \<and>
        row1 ! p1 = code e \<and> (\<forall>r'\<in>set pre1. r' ! p1 \<noteq> code e) \<and>
        rows df2 = pre2 @ row2 # post2 \<and> get_loc (columns df2) cc = Some p2 \<and>
        row2 ! p2 = code e \<and> (\<forall>r'\<in>set pre2. r' ! p2 \<noteq> code e) \<and>
        row_getitem df1 row1 dc = Inr (description e) \<and>
        (\<forall>(n, a, b)\<in>set (fields' e). \<exists>col.
            row_getitem df1 row1 col = Inr a \<and> row_getitem df2 row2 col = Inr b)"
    if e: "e \<in> set (differences res)" for e
  proof -
    from differences_iff [OF assms(1-4) f1 f2 cols, of e] e obtain c ds where
      c: "compare_code df1 df2 cc dc cols c = Inr ds" "e \<in> set ds"
      by blast
    from compare_code_code [OF c] have k: "code e = c" .
    from compare_code_rows [OF c(1)] obtain row1 row2 where
      r1: "first_row df1 cc (code e) = Inr row1" and r2: "first_row df2 cc (code e) = Inr row2"
      unfolding k by blast
    from first_row_decomp [OF r1] obtain pre1 post1 p1 where
      d1: "rows df1 = pre1 @ row1 # post1" "get_loc (columns df1) cc = Some p1"
        "row1 ! p1 = code e" "\<forall>r'\<in>set pre1. r' ! p1 \<noteq> code e"
      by blast
    from first_row_decomp [OF r2] obtain pre2 post2 p2 where
      d2: "rows df2 = pre2 @ row2 # post2" "get_loc (columns df2) cc = Some p2"
        "row2 ! p2 = code e" "\<forall>r'\<in>set pre2. r' ! p2 \<noteq> code e"
      by blast
    from differences_entry_iff [OF assms(1-4) cols r1 r2] e obtain d dfs where
      "row_getitem df1 row1 dc = Inr d" "e = \<lparr>code = code e, description = d, fields' = dfs\<rparr>"
      by blast
    then have desc: "row_getitem df1 row1 dc = Inr (description e)"
      by (metis difference.select_convs(2))
    have pairs: "\<forall>(n, a, b)\<in>set (fields' e). \<exists>col.
            row_getitem df1 row1 col = Inr a \<and> row_getitem df2 row2 col = Inr b"
      using recorded_pair_differs [OF assms(1-4) cols r1 r2 e refl] by blast
    from d1 d2 desc pairs show ?thesis
      by blast
  qed
  have lookups: "first_row df cc k = Inr r \<and>
        (\<forall>q. get_loc (columns df) dc = Some q \<longrightarrow> first_description df cc dc k = Inr (r ! q))"
    if "wf_frame df \<and> get_loc (columns df) cc = Some p \<and> rows df = pre @ r # post \<and>
        r ! p = k \<and> \<not> is_nan k \<and> (\<forall>r'\<in>set pre. r' ! p \<noteq> k)" for df k pre r post p
    using that first_row_first [of df cc p pre r post k]
      first_description_first [of df cc p pre r post k dc]
    by blast
  show ?thesis
  proof (intro conjI ballI allI impI)
    fix kd assume mem: "kd \<in> set (missing_codes res)"
    obtain k' d' where kd: "kd = (k', d')"
      by (cases kd)
    from missing [of k' d'] mem show "case kd of (k, d) \<Rightarrow> \<exists>pre r post p q.
        rows df1 = pre @ r # post \<and> get_loc (columns df1) cc = Some p \<and>
        get_loc (columns df1) dc = Some q \<and>
        r ! p = k \<and> (\<forall>r'\<in>set pre. r' ! p \<noteq> k) \<and> d = r ! q"
      unfolding kd by simp
  next
    fix kd assume mem: "kd \<in> set (extra_codes res)"
    obtain k' d' where kd: "kd = (k', d')"
      by (cases kd)
    from extra [of k' d'] mem show "case kd of (k, d) \<Rightarrow> \<exists>pre r post p q.
        rows df2 = pre @ r # post \<and> get_loc (columns df2) cc = Some p \<and>
        get_loc (columns df2) dc = Some q \<and>
        r ! p = k \<and> (\<forall>r'\<in>set pre. r' ! p \<noteq> k) \<and> d = r ! q"
      unfolding kd by simp
  next
    fix e assume "e \<in> set (differences res)"
    then show "\<exists>pre1 row1 post1 p1 pre2 row2 post2 p2.
        rows df1 = pre1 @ row1 # post1 \<and> get_loc (columns df1) cc = Some p1 \<and>
        row1 ! p1 = code e \<and> (\<forall>r'\<in>set pre1. r' ! p1 \<noteq> code e) \<and>
        rows df2 = pre2 @ row2 # post2 \<and> get_loc (columns df2) cc = Some p2 \<and>
        row2 ! p2 = code e \<and> (\<forall>r'\<in>set pre2. r' ! p2 \<noteq> code e) \<and>
        row_getitem df1 row1 dc = Inr (description e) \<and>
        (\<forall>(n, a, b)\<in>set (fields' e). \<exists>col.
            row_getitem df1 row1 col = Inr a \<and> row_getitem df2 row2 col = Inr b)"
      by (rule common)
  next
    fix df :: frame and k :: cell and pre r post p
    assume "wf_frame df \<and> get_loc (columns df) cc = Some p \<and> rows df = pre @ r # post \<and>
        r ! p = k \<and> \<not> is_nan k \<and> (\<forall>r'\<in>set pre. r' ! p \<noteq> k)"
    from lookups [OF this] show "first_row df cc k = Inr r" ..
  next
    fix df :: frame and k :: cell and pre r post p q
    assume "wf_frame df \<and> get_loc (columns df) cc = Some p \<and> rows df = pre @ r # post \<and>
        r ! p = k \<and> \<not> is_nan k \<and> (\<forall>r'\<in>set pre. r' ! p \<noteq> k)"
      and "get_loc (columns df) dc = Some q"
    with lookups [of df p pre r post k] show "first_description df cc dc k = Inr (r ! q)"
      by blast
  qed
qed

text \<open>
  Key 002 is in two rows of the first sheet, with the descriptions "Gadget" and "Other":
  the entry has "Gadget". Key 001 is in two rows of each sheet: the values compared are
  10 and 12, those of the first rows.
\<close>

theorem first_match_wins_witness:
  "iteration_order (\<lambda>xs. xs) \<and>
   calculate_result (\<lambda>xs. xs) settings0 True sheet_dup_a sheet_dup_b = Inr result_dup \<and>
   columns_getitem sheet_dup_a (code_column_index settings0) = Inr ''code'' \<and>
   columns_getitem sheet_dup_a (name_column_index settings0) = Inr ''name'' \<and>
   wf_frame sheet_dup_a \<and> wf_frame sheet_dup_b \<and>
   get_loc (columns sheet_dup_a) ''code'' = Some 0 \<and>
   rows sheet_dup_a =
     [] @ item ''002'' ''Gadget'' (Number 1) #
       [item ''002'' ''Other'' (Number 2), widget (Number 10), widget (Number 11)] \<and>
   item ''002'' ''Gadget'' (Number 1) ! 0 = Text ''002'' \<and>
   \<not> is_nan (Text ''002'') \<and>
   get_loc (columns sheet_dup_a) ''name'' = Some 1 \<and>
   first_row sheet_dup_a ''code'' (Text ''002'') = Inr (item ''002'' ''Gadget'' (Number 1)) \<and>
   first_description sheet_dup_a ''code'' ''name'' (Text ''002'')
     = Inr (item ''002'' ''Gadget'' (Number 1) ! 1) \<and>
   (\<exists>pre r post p q.
        rows sheet_dup_a = pre @ r # post \<and> get_loc (columns sheet_dup_a) ''code'' = Some p \<and>
        get_loc (columns sheet_dup_a) ''name'' = Some q \<and>
        r ! p = Text ''002'' \<and> (\<forall>r'\<in>set pre. r' ! p \<noteq> Text ''002'') \<and>
        Text ''Gadget'' = r ! q)"
proof -
  have run: "calculate_result (\<lambda>xs. xs) settings0 True sheet_dup_a sheet_dup_b = Inr result_dup"
    by (simp add: eval_defs)
  have cc: "columns_getitem sheet_dup_a (code_column_index settings0) = Inr ''code''"
    and dc: "columns_getitem sheet_dup_a (name_column_index settings0) = Inr ''name''"
    by (simp_all add: eval_defs)
  have wf1: "wf_frame sheet_dup_a" and wf2: "wf_frame sheet_dup_b"
    by (simp_all add: wf_frame_def eval_defs)
  have p: "get_loc (columns sheet_dup_a) ''code'' = Some 0"
    and q: "get_loc (columns sheet_dup_a) ''name'' = Some 1"
    and rs: "rows sheet_dup_a =
     [] @ item ''002'' ''Gadget'' (Number 1) #
       [item ''002'' ''Other'' (Number 2), widget (Number 10), widget (Number 11)]"
    and key: "item ''002'' ''Gadget'' (Number 1) ! 0 = Text ''002''"
    and nan: "\<not> is_nan (Text ''002'')"
    by (simp_all add: eval_defs)
  note t = first_match_wins [OF iteration_order_id run cc dc wf1 wf2]
  from t have "\<forall>(k, d)\<in>set (missing_codes result_dup). \<exists>pre r post p q.
        rows sheet_dup_a = pre @ r # post \<and> get_loc (columns sheet_dup_a) ''code'' = Some p \<and>
        get_loc (columns sheet_dup_a) ''name'' = Some q \<and>
        r ! p = k \<and> (\<forall>r'\<in>set pre. r' ! p \<noteq> k) \<and> d = r ! q"
    by (rule conjunct1)
  then have entry: "\<exists>pre r post p q.
        rows sheet_dup_a = pre @ r # post \<and> get_loc (columns sheet_dup_a) ''code'' = Some p \<and>
        get_loc (columns sheet_dup_a) ''name'' = Some q \<and>
        r ! p = Text ''002'' \<and> (\<forall>r'\<in>set pre. r' ! p \<noteq> Text ''002'') \<and>
        Text ''Gadget'' = r ! q"
    by (simp add: result_dup_def)
  from t have "\<forall>df k pre r post p.
        wf_frame df \<and> get_loc (columns df) ''code'' = Some p \<and> rows df = pre @ r # post \<and>
        r ! p = k \<and> \<not> is_nan k \<and> (\<forall>r'\<in>set pre. r' ! p \<noteq> k) \<longrightarrow>
        first_row df ''code'' k = Inr r \<and>
        (\<forall>q. get_loc (columns df) ''name'' = Some q \<longrightarrow>
           first_description df ''code'' ''name'' k = Inr (r ! q))"
    by (elim conjE)
  from this [rule_format, of sheet_dup_a 0 "[]" "item ''002'' ''Gadget'' (Number 1)"
      "[item ''002'' ''Other'' (Number 2), widget (Number 10), widget (Number 11)]" "Text ''002''"]
    wf1 p rs key nan
  have look: "first_row sheet_dup_a ''code'' (Text ''002'') = Inr (item ''002'' ''Gadget'' (Number 1)) \<and>
        (\<forall>q. get_loc (columns sheet_dup_a) ''name'' = Some q \<longrightarrow>
           first_description sheet_dup_a ''code'' ''name'' (Text ''002'')
             = Inr (item ''002'' ''Gadget'' (Number 1) ! q))"
    by simp
  then have r: "first_row sheet_dup_a ''code'' (Text ''002'') = Inr (item ''002'' ''Gadget'' (Number 1))"
    and d: "first_description sheet_dup_a ''code'' ''name'' (Text ''002'')
     = Inr (item ''002'' ''Gadget'' (Number 1) ! 1)"
    using q by simp_all
  show ?thesis
    by (intro conjI iteration_order_id run cc dc wf1 wf2 p rs key nan q r d entry)
qed

subsection \<open>Keys of one table only\<close>

text \<open>
  Claim C8, as stated, fails for the second table: its keys are not read at
  \<open>key_index\<close> but in the column that carries the label of the first table's key
  column. Below both sheets hold key \<open>001\<close> at index 0; the second sheet has the
  label "code" on its other column, whose value is \<open>X\<close>. So \<open>001\<close> is listed in
  \<open>missing_codes\<close> (only\_in\_a) though it is in the second table's key set, and
  \<open>X\<close> in \<open>extra_codes\<close> (only\_in\_b) though it is not.
\<close>

theorem key_read_by_label_counterexample:
  "wf_frame sheet_two \<and> wf_frame sheet_swapped \<and>
   code_column_index settings0 = 0 \<and>
   key_set sheet_two (code_column_index settings0) = {Text ''001''} \<and>
   key_set sheet_swapped (code_column_index settings0) = {Text ''001''} \<and>
   calculate_result (\<lambda>xs. xs) settings0 False sheet_two sheet_swapped
     = Inr \<lparr>row_count_1 = 1, row_count_2 = 1,
            missing_codes = [(Text ''001'', Text ''Widget'')],
            extra_codes = [(Text ''X'', Text ''001'')],
            differences = []\<rparr>"
  by (simp add: eval_defs wf_frame_def key_set_def)

text \<open>
  Claim C8, amended: the second table's keys are the values of its column labelled as
  the first table's key column. For well-formed frames: in a returned result every key
  of \<open>missing_codes\<close> (only\_in\_a) is in the first frame's key set (the cells at
  \<open>key_index\<close>) and not among the values of that column of the second frame, and
  every key of \<open>extra_codes\<close> (only\_in\_b) the other way round. Where the second
  frame's header has at \<open>key_index\<close> the label that the first frame's has there,
  those values are the second frame's key set.
\<close>

theorem only_in_one_table:
  assumes "iteration_order ord"
    and "calculate_result ord st g df1 df2 = Inr res"
    and "columns_getitem df1 (code_column_index st) = Inr cc"
    and "column_values df2 cc = Inr f2"
    and "wf_frame df1" and "wf_frame df2"
  shows "(\<forall>(k, d)\<in>set (missing_codes res).
            k \<in> key_set df1 (code_column_index st) \<and> k \<notin> set f2) \<and>
         (\<forall>(k, d)\<in>set (extra_codes res).
            k \<in> set f2 \<and> k \<notin> key_set df1 (code_column_index st)) \<and>
         (columns_getitem df2 (code_column_index st) = Inr cc \<longrightarrow>
            set f2 = key_set df2 (code_column_index st))"
proof -
  from column_values_own [OF assms(5,3)] obtain f1 where
    f1: "column_values df1 cc = Inr f1" and k1: "set f1 = key_set df1 (code_column_index st)"
    by blast
  note keys = missing_extra_keys [OF assms(1-3) f1 assms(4)]
  have "k \<in> set f1 - set f2" if "(k, d) \<in> set (missing_codes res)" for k d
    using that keys(1) by (metis fst_conv imageI)
  moreover have "k \<in> set f2 - set f1" if "(k, d) \<in> set (extra_codes res)" for k d
    using that keys(2) by (metis fst_conv imageI)
  moreover have "set f2 = key_set df2 (code_column_index st)"
    if "columns_getitem df2 (code_column_index st) = Inr cc"
    using column_values_key_set [OF assms(6) that assms(4)] .
  ultimately show ?thesis
    unfolding k1 [symmetric] by auto
qed

theorem only_in_one_table_witness:
  "iteration_order rev \<and>
   calculate_result rev settings0 True sheet_a sheet_b = Inr result_ab \<and>
   columns_getitem sheet_a (code_column_index settings0) = Inr ''code'' \<and>
   column_values sheet_b ''code'' = Inr [Text ''001'', Text ''003'', Text ''004''] \<and>
   wf_frame sheet_a \<and> wf_frame sheet_b \<and>
   columns_getitem sheet_b (code_column_index settings0) = Inr ''code'' \<and>
   missing_codes result_ab = [(Text ''002'', Text ''Gadget'')] \<and>
   Text ''002'' \<in> key_set sheet_a (code_column_index settings0) \<and>
   Text ''002'' \<notin> set [Text ''001'', Text ''003'', Text ''004''] \<and>
   extra_codes result_ab = [(Text ''003'', Text ''Gizmo'')] \<and>
   Text ''003'' \<in> set [Text ''001'', Text ''003'', Text ''004''] \<and>
   Text ''003'' \<notin> key_set sheet_a (code_column_index settings0) \<and>
   set [Text ''001'', Text ''003'', Text ''004''] = key_set sheet_b (code_column_index settings0)"
proof -
  note t = only_in_one_table [OF iteration_order_rev run_ab_rev code_column_a codes_b
      wf_sheet_a wf_sheet_b]
  have m: "missing_codes result_ab = [(Text ''002'', Text ''Gadget'')]"
    and x: "extra_codes result_ab = [(Text ''003'', Text ''Gizmo'')]"
    by (simp_all add: result_ab_def)
  have cb: "columns_getitem sheet_b (code_column_index settings0) = Inr ''code''"
    by (simp add: eval_defs)
  from t have a: "\<forall>(k, d)\<in>set (missing_codes result_ab).
      k \<in> key_set sheet_a (code_column_index settings0) \<and>
      k \<notin> set [Text ''001'', Text ''003'', Text ''004'']"
    and b: "\<forall>(k, d)\<in>set (extra_codes result_ab).
      k \<in> set [Text ''001'', Text ''003'', Text ''004''] \<and>
      k \<notin> key_set sheet_a (code_column_index settings0)"
    and c: "columns_getitem sheet_b (code_column_index settings0) = Inr ''code'' \<longrightarrow>
      set [Text ''001'', Text ''003'', Text ''004''] = key_set sheet_b (code_column_index settings0)"
    by blast+
  from a have a': "Text ''002'' \<in> key_set sheet_a (code_column_index settings0)"
    "Text ''002'' \<notin> set [Text ''001'', Text ''003'', Text ''004'']"
    unfolding m by simp_all
  from b have b': "Text ''003'' \<in> set [Text ''001'', Text ''003'', Text ''004'']"
    "Text ''003'' \<notin> key_set sheet_a (code_column_index settings0)"
    unfolding x by simp_all
  from c cb have c': "set [Text ''001'', Text ''003'', Text ''004'']
      = key_set sheet_b (code_column_index settings0)"
    by (rule mp)
  show ?thesis
    by (intro conjI iteration_order_rev run_ab_rev code_column_a codes_b wf_sheet_a wf_sheet_b
        cb m x a' b' c')
qed

subsection \<open>Determinism\<close>

text \<open>
  Claim C9. \<open>calculate_result\<close> is a function of the two frames, the
  settings and the check box; it reads the frames and writes to neither (the source
  assigns to no part of \<open>df1\<close> or \<open>df2\<close>, and the embedding has
  no store to write to). What Python leaves open is the order in which the three sets
  are iterated. For any two such orders the two runs either both raise or both return,
  and two returned results have the same counts, the same \<open>missing_codes\<close>
  and \<open>extra_codes\<close> pairs and the same \<open>differences\<close> entries,
  each as often in one as in the other.
\<close>

theorem compare_deterministic:
  assumes "iteration_order ord1" and "iteration_order ord2"
  shows "(isl (calculate_result ord1 st g df1 df2) \<longleftrightarrow> isl (calculate_result ord2 st g df1 df2)) \<and>
         (\<forall>r1 r2. calculate_result ord1 st g df1 df2 = Inr r1 \<and>
                  calculate_result ord2 st g df1 df2 = Inr r2 \<longrightarrow>
            row_count_1 r1 = row_count_1 r2 \<and> row_count_2 r1 = row_count_2 r2 \<and>
            mset (missing_codes r1) = mset (missing_codes r2) \<and>
            mset (extra_codes r1) = mset (extra_codes r2) \<and>
            mset (differences r1) = mset (differences r2))"
proof -
  note rel = calculate_result_permuted [OF assms, of st g df1 df2]
  have "isl (calculate_result ord1 st g df1 df2) \<longleftrightarrow> isl (calculate_result ord2 st g df1 df2)"
    using rel
    by (cases "calculate_result ord1 st g df1 df2"; cases "calculate_result ord2 st g df1 df2")
      simp_all
  moreover have "row_count_1 r1 = row_count_1 r2 \<and> row_count_2 r1 = row_count_2 r2 \<and>
            mset (missing_codes r1) = mset (missing_codes r2) \<and>
            mset (extra_codes r1) = mset (extra_codes r2) \<and>
            mset (differences r1) = mset (differences r2)"
    if "calculate_result ord1 st g df1 df2 = Inr r1 \<and>
        calculate_result ord2 st g df1 df2 = Inr r2" for r1 r2
    using rel that by simp
  ultimately show ?thesis
    by blast
qed

text \<open>
  Two keys of the first sheet only, iterated in one order and in the reverse order: the
  lists of pairs differ in their order alone.
\<close>

theorem compare_deterministic_witness:
  "iteration_order (\<lambda>xs. xs) \<and> iteration_order rev \<and>
   calculate_result (\<lambda>xs. xs) settings0 False
       (sheet [item ''002'' ''Gadget'' (Number 1), item ''005'' ''Nut'' (Number 3)]) (sheet [])
     = Inr \<lparr>row_count_1 = 2, row_count_2 = 0,
            missing_codes = [(Text ''002'', Text ''Gadget''), (Text ''005'', Text ''Nut'')],
            extra_codes = [], differences = []\<rparr> \<and>
   calculate_result rev settings0 False
       (sheet [item ''002'' ''Gadget'' (Number 1), item ''005'' ''Nut'' (Number 3)]) (sheet [])
     = Inr \<lparr>row_count_1 = 2, row_count_2 = 0,
            missing_codes = [(Text ''005'', Text ''Nut''), (Text ''002'', Text ''Gadget'')],
            extra_codes = [], differences = []\<rparr> \<and>
   mset [(Text ''002'', Text ''Gadget''), (Text ''005'', Text ''Nut'')]
     = mset [(Text ''005'', Text ''Nut''), (Text ''002'', Text ''Gadget'')]"
proof -
  have run1: "calculate_result (\<lambda>xs. xs) settings0 False
       (sheet [item ''002'' ''Gadget'' (Number 1), item ''005'' ''Nut'' (Number 3)]) (sheet [])
     = Inr \<lparr>row_count_1 = 2, row_count_2 = 0,
            missing_codes = [(Text ''002'', Text ''Gadget''), (Text ''005'', Text ''Nut'')],
            extra_codes = [], differences = []\<rparr>"
    by (simp add: eval_defs)
  have run2: "calculate_result rev settings0 False
       (sheet [item ''002'' ''Gadget'' (Number 1), item ''005'' ''Nut'' (Number 3)]) (sheet [])
     = Inr \<lparr>row_count_1 = 2, row_count_2 = 0,
            missing_codes = [(Text ''005'', Text ''Nut''), (Text ''002'', Text ''Gadget'')],
            extra_codes = [], differences = []\<rparr>"
    by (simp add: eval_defs)
  note t = compare_deterministic [OF iteration_order_id iteration_order_rev,
      where st = settings0 and g = False
        and ?df1.0 = "sheet [item ''002'' ''Gadget'' (Number 1), item ''005'' ''Nut'' (Number 3)]"
        and ?df2.0 = "sheet []"]
  from t run1 run2 have "mset [(Text ''002'', Text ''Gadget''), (Text ''005'', Text ''Nut'')]
     = mset [(Text ''005'', Text ''Nut''), (Text ''002'', Text ''Gadget'')]"
    by (metis result.select_convs(3))
  then show ?thesis
    by (intro conjI iteration_order_id iteration_order_rev run1 run2)
qed

subsection \<open>Missing values\<close>

text \<open>
  Claim C10. For well-formed frames: let \<open>k\<close> be a key with a record in both
  frames, \<open>row1\<close> and \<open>row2\<close> the first such records, and
  \<open>(n, col)\<close> an active comparison field. If the cell of \<open>col\<close>
  is missing (\<open>nan\<close>) in \<open>row1\<close> and in \<open>row2\<close>, a
  returned result has a \<open>differences\<close> entry for \<open>k\<close> that
  records the field \<open>n\<close>: \<open>nan != nan\<close> is true.
\<close>

theorem missing_values_differ:
  assumes "iteration_order ord"
    and "calculate_result ord st g df1 df2 = Inr res"
    and "columns_getitem df1 (code_column_index st) = Inr cc"
    and "columns_getitem df1 (name_column_index st) = Inr dc"
    and "columns_to_compare st g df1 = Inr cols"
    and "first_row df1 cc k = Inr row1"
    and "first_row df2 cc k = Inr row2"
    and "(n, col) \<in> set cols"
    and "row_getitem df1 row1 col = Inr a"
    and "row_getitem df2 row2 col = Inr b"
    and "is_nan a" and "is_nan b"
    and "wf_frame df1" and "wf_frame df2"
  shows "\<exists>e\<in>set (differences res). code e = k \<and> n \<in> fst ` set (fields' e)"
proof -
  from assms(11) have "py_ne a b"
    by (simp add: py_ne_def)
  from differing_field_recorded [OF assms(1-10) this] show ?thesis .
qed

text \<open>The two records are the same, with an empty "incoming" cell.\<close>

theorem missing_values_differ_witness:
  "iteration_order (\<lambda>xs. xs) \<and>
   calculate_result (\<lambda>xs. xs) settings0 True
       (sheet [widget (NaN 0)]) (sheet [widget (NaN 0)])
     = Inr \<lparr>row_count_1 = 1, row_count_2 = 1, missing_codes = [], extra_codes = [],
            differences =
              [\<lparr>code = Text ''001'', description = Text ''Widget'',
                fields' = [(''Incoming'', NaN 0, NaN 0)]\<rparr>]\<rparr> \<and>
   columns_getitem (sheet [widget (NaN 0)]) (code_column_index settings0) = Inr ''code'' \<and>
   columns_getitem (sheet [widget (NaN 0)]) (name_column_index settings0) = Inr ''name'' \<and>
   columns_to_compare settings0 True (sheet [widget (NaN 0)]) = Inr triad \<and>
   first_row (sheet [widget (NaN 0)]) ''code'' (Text ''001'') = Inr (widget (NaN 0)) \<and>
   (''Incoming'', ''incoming'') \<in> set triad \<and>
   row_getitem (sheet [widget (NaN 0)]) (widget (NaN 0)) ''incoming'' = Inr (NaN 0) \<and>
   is_nan (NaN 0) \<and>
   wf_frame (sheet [widget (NaN 0)]) \<and>
   (\<exists>e\<in>set [\<lparr>code = Text ''001'', description = Text ''Widget'',
                fields' = [(''Incoming'', NaN 0, NaN 0)]\<rparr>].
       code e = Text ''001'' \<and> ''Incoming'' \<in> fst ` set (fields' e))"
proof -
  have run: "calculate_result (\<lambda>xs. xs) settings0 True
       (sheet [widget (NaN 0)]) (sheet [widget (NaN 0)])
     = Inr \<lparr>row_count_1 = 1, row_count_2 = 1, missing_codes = [], extra_codes = [],
            differences =
              [\<lparr>code = Text ''001'', description = Text ''Widget'',
                fields' = [(''Incoming'', NaN 0, NaN 0)]\<rparr>]\<rparr>"
    by (simp add: eval_defs)
  have cc: "columns_getitem (sheet [widget (NaN 0)]) (code_column_index settings0) = Inr ''code''"
    and dc: "columns_getitem (sheet [widget (NaN 0)]) (name_column_index settings0) = Inr ''name''"
    and cols: "columns_to_compare settings0 True (sheet [widget (NaN 0)]) = Inr triad"
    and r: "first_row (sheet [widget (NaN 0)]) ''code'' (Text ''001'') = Inr (widget (NaN 0))"
    and a: "row_getitem (sheet [widget (NaN 0)]) (widget (NaN 0)) ''incoming'' = Inr (NaN 0)"
    by (simp_all add: eval_defs)
  have field: "(''Incoming'', ''incoming'') \<in> set triad"
    by (simp add: triad_def)
  have wf: "wf_frame (sheet [widget (NaN 0)])"
    by (simp add: wf_frame_def eval_defs)
  have nan: "is_nan (NaN 0)"
    by simp
  from missing_values_differ [OF iteration_order_id run cc dc cols r r field a a nan nan
      wf wf]
  have "\<exists>e\<in>set [\<lparr>code = Text ''001'', description = Text ''Widget'',
                fields' = [(''Incoming'', NaN 0, NaN 0)]\<rparr>].
       code e = Text ''001'' \<and> ''Incoming'' \<in> fst ` set (fields' e)"
    by simp
  then show ?thesis
    by (intro conjI iteration_order_id run cc dc cols r field a nan wf)
qed

end
